theory Spec2Isabelle
  imports Main "HOL-Library.Sublist" "HOL-Library.AList"
begin

text \<open>
  The WebDAV client of the image uploader (\<open>WebDavClient\<close>, \<open>WebDavClientInner\<close>) and its image
  loader (\<open>WebDavImageLoader\<close>, \<open>WebDavImageLoaderExtension\<close>), as functions over an explicit
  network and page. A function that can throw returns \<open>exn + 'a\<close>, with \<open>Inl\<close> for what is
  thrown; a function that changes the network or the page takes it and returns it; the two
  functions that call themselves without a bound return an option, \<open>None\<close> when they never
  return. The definitions come first, the properties after them.
\<close>

section \<open>Strings\<close>

text \<open>
  A JavaScript string is modelled by the list of bytes of its UTF-8 encoding
  (\<open>string\<close>, a \<open>char list\<close>). Splitting on \<open>'/'\<close>, searching for a substring and
  percent-encoding (which works on the UTF-8 bytes of a character) mean the same on the bytes
  as on the UTF-16 code units of a well-formed string. A string with a lone surrogate, on
  which \<open>encodeURI\<close> and \<open>encodeURIComponent\<close> throw \<open>URIError\<close>, has no UTF-8 encoding
  and is outside the model.
\<close>

subsection \<open>Numbers in template literals\<close>

definition digit :: "nat \<Rightarrow> char" where
  "digit n = ''0123456789'' ! (n mod 10)"

function show_nat :: "nat \<Rightarrow> string" where
  "show_nat n = (if n < 10 then [digit n] else show_nat (n div 10) @ [digit n])"
  by pat_completeness auto
termination
  by (relation "measure id") auto

declare show_nat.simps [simp del]

subsection \<open>\<open>split\<close>, \<open>join\<close>, \<open>replace\<close>, \<open>substring\<close>, \<open>lastIndexOf\<close>\<close>

text \<open>\<open>s.split(sep)\<close> for a separator of one character: the result is never empty.\<close>

fun js_split :: "char \<Rightarrow> string \<Rightarrow> string list" where
  "js_split sep [] = [Nil]"
| "js_split sep (c # cs) =
     (if c = sep then [] # js_split sep cs
      else (c # hd (js_split sep cs)) # tl (js_split sep cs))"

fun js_join :: "char \<Rightarrow> string list \<Rightarrow> string" where
  "js_join sep [] = []"
| "js_join sep [s] = s"
| "js_join sep (s # t # ts) = s @ sep # js_join sep (t # ts)"

text \<open>
  \<open>s.replace(pat, "")\<close> with a string pattern: the first occurrence of \<open>pat\<close> is removed,
  and \<open>s\<close> is returned as it is when there is none (the empty pattern occurs at index 0).
\<close>

fun js_replace_empty :: "string \<Rightarrow> string \<Rightarrow> string" where
  "js_replace_empty pat [] = []"
| "js_replace_empty pat (c # cs) =
     (if prefix pat (c # cs) then drop (length pat) (c # cs)
      else c # js_replace_empty pat cs)"

text \<open>
  \<open>path.substring(0, path.lastIndexOf("/"))\<close>: what stands before the last slash;
  \<open>lastIndexOf\<close> is -1 when there is none, and \<open>substring(0, -1)\<close> is the empty string.
\<close>

fun lastIndexOf :: "string \<Rightarrow> char \<Rightarrow> int" where
  "lastIndexOf [] x = -1"
| "lastIndexOf (c # cs) x =
     (let i = lastIndexOf cs x in
      if i \<ge> 0 then i + 1 else if c = x then 0 else -1)"

definition substring0 :: "string \<Rightarrow> int \<Rightarrow> string" where
  "substring0 s e = take (nat e) s"

definition endsWith :: "string \<Rightarrow> string \<Rightarrow> bool" where
  "endsWith s x = suffix x s"

definition startsWith :: "string \<Rightarrow> string \<Rightarrow> bool" where
  "startsWith s x = prefix x s"

subsection \<open>Percent-encoding\<close>

definition uriAlpha :: string where
  "uriAlpha = ''abcdefghijklmnopqrstuvwxyzABCDEFGHIJKLMNOPQRSTUVWXYZ''"

definition uriMark :: string where
  "uriMark = [CHR ''-'', CHR ''_'', CHR ''.'', CHR ''!'', CHR ''~'', CHR ''*'', CHR 0x27,
              CHR ''('', CHR '')'']"

definition uriReserved :: string where
  "uriReserved = '';/?:@&=+$,''"

text \<open>The characters \<open>encodeURIComponent\<close> leaves as they are.\<close>

definition uriUnescaped :: "char \<Rightarrow> bool" where
  "uriUnescaped c = (c \<in> set (uriAlpha @ ''0123456789'' @ uriMark))"

text \<open>The characters \<open>encodeURI\<close> leaves as they are.\<close>

definition uriUnescapedOrReserved :: "char \<Rightarrow> bool" where
  "uriUnescapedOrReserved c = (uriUnescaped c \<or> c \<in> set (uriReserved @ ''#''))"

definition hexDigit :: "nat \<Rightarrow> char" where
  "hexDigit n = ''0123456789ABCDEF'' ! (n mod 16)"

definition percentEncode :: "char \<Rightarrow> string" where
  "percentEncode c =
     [CHR ''%'', hexDigit ((of_char c :: nat) div 16), hexDigit ((of_char c :: nat) mod 16)]"

definition encodeWith :: "(char \<Rightarrow> bool) \<Rightarrow> string \<Rightarrow> string" where
  "encodeWith keep s = concat (map (\<lambda>c. if keep c then [c] else percentEncode c) s)"

definition encodeURIComponent :: "string \<Rightarrow> string" where
  "encodeURIComponent s = encodeWith uriUnescaped s"

definition encodeURI :: "string \<Rightarrow> string" where
  "encodeURI s = encodeWith uriUnescapedOrReserved s"

text \<open>\<open>WebDavClientInner.encodePath\<close>.\<close>

definition encodePath :: "string \<Rightarrow> string" where
  "encodePath path = js_join CHR ''/'' (map encodeURIComponent (js_split CHR ''/'' path))"

subsection \<open>The decoding the specification speaks of\<close>

text \<open>
  The source has no decoder. The specification's \<open>decode\<close> is the inverse of percent-encoding
  on one segment: \<open>%XX\<close> becomes the byte \<open>XX\<close>, any other character stands for itself,
  and a \<open>%\<close> that two hexadecimal digits do not follow is malformed.
\<close>

definition unhex :: "char \<Rightarrow> nat option" where
  "unhex c =
     (let n = (of_char c :: nat) in
      if 48 \<le> n \<and> n \<le> 57 then Some (n - 48)
      else if 65 \<le> n \<and> n \<le> 70 then Some (n - 55)
      else if 97 \<le> n \<and> n \<le> 102 then Some (n - 87)
      else None)"

fun spec_decode :: "string \<Rightarrow> string option" where
  "spec_decode [] = Some []"
| "spec_decode (c # cs) =
     (if c = CHR ''%'' then
        (case cs of
           h # l # rest \<Rightarrow>
             (case unhex h of
                None \<Rightarrow> None
              | Some a \<Rightarrow>
                 (case unhex l of
                    None \<Rightarrow> None
                  | Some b \<Rightarrow> map_option ((#) (char_of (16 * a + b))) (spec_decode rest)))
         | _ \<Rightarrow> None)
      else map_option ((#) c) (spec_decode cs))"

text \<open>Decoding a wire path segment by segment, as the specification describes it.\<close>

fun collect :: "'a option list \<Rightarrow> 'a list option" where
  "collect [] = Some []"
| "collect (None # xs) = None"
| "collect (Some x # xs) = map_option ((#) x) (collect xs)"

definition spec_decodePath :: "string \<Rightarrow> string option" where
  "spec_decodePath s =
     map_option (js_join CHR ''/'') (collect (map spec_decode (js_split CHR ''/'' s)))"

section \<open>Exceptions\<close>

text \<open>
  What a function of the program can throw: \<open>new Error(msg)\<close>; the \<open>InvalidCharacterError\<close> of
  \<open>atob\<close>; what \<open>requestUrl\<close> throws for a status of 400 or more when its \<open>throw\<close> option
  is not switched off; and whatever \<open>requestUrl\<close> throws when no response arrives, of which
  only the rendering as a string is known.
\<close>

datatype exn =
    Error string
  | InvalidCharacterError
  | RequestFailed nat
  | NetworkFailure string

text \<open>The template literal \<open>`${e}`\<close>.\<close>

fun exnString :: "exn \<Rightarrow> string" where
  "exnString (Error msg) = ''Error: '' @ msg"
| "exnString InvalidCharacterError =
     ''InvalidCharacterError: The string to be decoded is not correctly encoded.''"
| "exnString (RequestFailed st) = ''Error: Request failed, status '' @ show_nat st"
| "exnString (NetworkFailure rendering) = rendering"

section \<open>\<open>atob\<close>\<close>

text \<open>
  The forgiving Base64 decoder: ASCII whitespace is dropped, one or two closing \<open>=\<close> are
  dropped when the length is a multiple of four, a length of 1 modulo 4 or a character outside
  the alphabet throws. The result is a string of code points below 256; one from 128 on takes two
  bytes in UTF-8.
\<close>

definition asciiWhitespace :: "char \<Rightarrow> bool" where
  "asciiWhitespace c = ((of_char c :: nat) \<in> {9, 10, 12, 13, 32})"

definition base64Value :: "char \<Rightarrow> nat option" where
  "base64Value c =
     (let n = (of_char c :: nat) in
      if 65 \<le> n \<and> n \<le> 90 then Some (n - 65)
      else if 97 \<le> n \<and> n \<le> 122 then Some (n - 71)
      else if 48 \<le> n \<and> n \<le> 57 then Some (n + 4)
      else if c = CHR ''+'' then Some 62
      else if c = CHR ''/'' then Some 63
      else None)"

fun base64Bytes :: "nat list \<Rightarrow> nat list" where
  "base64Bytes (a # b # c # d # rest) =
     [a * 4 + b div 16, (b mod 16) * 16 + c div 4, (c mod 4) * 64 + d] @ base64Bytes rest"
| "base64Bytes [a, b, c] = [a * 4 + b div 16, (b mod 16) * 16 + c div 4]"
| "base64Bytes [a, b] = [a * 4 + b div 16]"
| "base64Bytes [a] = []"
| "base64Bytes [] = []"

definition stripPadding :: "string \<Rightarrow> string" where
  "stripPadding d =
     (if length d mod 4 = 0 then
        (if endsWith d ''=='' then butlast (butlast d)
         else if endsWith d ''='' then butlast d
         else d)
      else d)"

definition binaryChar :: "nat \<Rightarrow> string" where
  "binaryChar n =
     (if n < 128 then [char_of n] else [char_of (192 + n div 64), char_of (128 + n mod 64)])"

definition atob :: "string \<Rightarrow> exn + string" where
  "atob s =
     (let d = stripPadding (filter (\<lambda>c. \<not> asciiWhitespace c) s) in
      if length d mod 4 = 1 then Inl InvalidCharacterError
      else (case collect (map base64Value d) of
              None \<Rightarrow> Inl InvalidCharacterError
            | Some vs \<Rightarrow> Inr (concat (map binaryChar (base64Bytes vs)))))"

text \<open>\<open>String(v)\<close> for a setting that is a string or \<open>undefined\<close>.\<close>

definition js_String :: "string option \<Rightarrow> string" where
  "js_String v = (case v of None \<Rightarrow> ''undefined'' | Some s \<Rightarrow> s)"

text \<open>The truthiness of such a setting: \<open>undefined\<close> and the empty string are falsy.\<close>

definition truthy :: "string option \<Rightarrow> bool" where
  "truthy v = (case v of None \<Rightarrow> False | Some s \<Rightarrow> s \<noteq> [])"

section \<open>The settings and the path codec (\<open>WebDavClient.getUrl\<close>, \<open>WebDavClient.getPath\<close>)\<close>

record WebDavImageUploaderSettings =
  url :: string
  username :: "string option"
  password :: "string option"
  token :: "string option"

definition getUrl :: "WebDavImageUploaderSettings \<Rightarrow> string \<Rightarrow> exn + string" where
  "getUrl settings path =
     (let tok = js_String (token settings) in
      case (if length tok > 0
            then (case atob tok of Inl e \<Rightarrow> Inl e | Inr tok' \<Rightarrow> Inr (''?token='' @ tok'))
            else Inr [])
      of Inl e \<Rightarrow> Inl e
       | Inr queryStr \<Rightarrow> Inr (encodeURI (url settings @ path @ queryStr)))"

definition getPath :: "WebDavImageUploaderSettings \<Rightarrow> string \<Rightarrow> exn + string" where
  "getPath settings u =
     (let path = js_replace_empty (url settings) u;
          tok = js_String (token settings) in
      case (if length tok > 0
            then (case atob tok of Inl e \<Rightarrow> Inl e | Inr tok' \<Rightarrow> Inr (''?token='' @ tok'))
            else Inr [])
      of Inl e \<Rightarrow> Inl e
       | Inr queryStr \<Rightarrow> Inr (js_replace_empty queryStr path))"

section \<open>The network\<close>

text \<open>
  Headers are a JavaScript object: an association list in the order in which its keys are
  listed. Keys that are array indices (the decimal numeral, without leading zeros, of a number
  up to 4294967294) come first, in ascending order; the other keys follow in the order of
  their insertion. Numerals without leading zeros are compared by length, then character by
  character. The object spread \<open>{...a, ...b}\<close> sets each property of \<open>b\<close> in turn: the value
  of a key that is there already is overwritten in place, a new key is added.
\<close>

type_synonym headers = "(string \<times> string) list"

definition isDecimalDigit :: "char \<Rightarrow> bool" where
  "isDecimalDigit c = (48 \<le> (of_char c :: nat) \<and> (of_char c :: nat) \<le> 57)"

fun charsLess :: "string \<Rightarrow> string \<Rightarrow> bool" where
  "charsLess (x # xs) (y # ys) =
     ((of_char x :: nat) < of_char y \<or> (x = y \<and> charsLess xs ys))"
| "charsLess xs ys = False"

definition indexLess :: "string \<Rightarrow> string \<Rightarrow> bool" where
  "indexLess a b = (length a < length b \<or> (length a = length b \<and> charsLess a b))"

definition isArrayIndex :: "string \<Rightarrow> bool" where
  "isArrayIndex k =
     (k \<noteq> [] \<and> list_all isDecimalDigit k \<and> (k = ''0'' \<or> hd k \<noteq> CHR ''0'')
      \<and> \<not> indexLess ''4294967294'' k)"

fun insertIndex :: "string \<times> string \<Rightarrow> headers \<Rightarrow> headers" where
  "insertIndex kv [] = [kv]"
| "insertIndex kv (x # xs) =
     (if indexLess (fst kv) (fst x) then kv # x # xs else x # insertIndex kv xs)"

definition ascendingIndices :: "headers \<Rightarrow> headers" where
  "ascendingIndices obj = foldr insertIndex obj []"

definition ownPropertyOrder :: "headers \<Rightarrow> headers" where
  "ownPropertyOrder obj =
     ascendingIndices (filter (\<lambda>kv. isArrayIndex (fst kv)) obj)
     @ filter (\<lambda>kv. \<not> isArrayIndex (fst kv)) obj"

definition spread :: "headers \<Rightarrow> headers \<Rightarrow> headers" where
  "spread obj extra =
     ownPropertyOrder (foldl (\<lambda>acc kv. AList.update (fst kv) (snd kv) acc) obj extra)"

record RequestUrlParam =
  req_url :: string
  req_method :: string
  req_headers :: headers
  req_body :: "string option"
  req_throw :: bool

record RequestUrlResponse =
  status :: nat
  resp_text :: "string option"
  arrayBuffer :: string

text \<open>
  The server is any state machine: from its state and a request it gives a response, or the
  request fails without one, and a new state. The network holds the server's state and the
  requests sent so far, oldest first.
\<close>

type_synonym 's server = "'s \<Rightarrow> RequestUrlParam \<Rightarrow> (exn + RequestUrlResponse) \<times> 's"

record 's network =
  server_state :: 's
  sent :: "RequestUrlParam list"

text \<open>Obsidian's \<open>requestUrl\<close>: with \<open>throw\<close> on, a status of 400 or more is thrown.\<close>

definition requestUrl ::
  "'s server \<Rightarrow> RequestUrlParam \<Rightarrow> 's network \<Rightarrow> (exn + RequestUrlResponse) \<times> 's network" where
  "requestUrl srv p w =
     (let answer = srv (server_state w) p;
          w' = \<lparr>server_state = snd answer, sent = sent w @ [p]\<rparr> in
      case fst answer of
        Inl e \<Rightarrow> (Inl e, w')
      | Inr response \<Rightarrow>
          if req_throw p \<and> status response \<ge> 400
          then (Inl (RequestFailed (status response)), w')
          else (Inr response, w'))"

section \<open>\<open>WebDavClientInner\<close>\<close>

record WebDavClientInner =
  baseUrl :: string
  authHeader :: string

text \<open>
  The constructor. \<open>getToken\<close> is a function of the repository's \<open>utils\<close> module, which
  is not among the sources: it is a parameter.
\<close>

definition new_WebDavClientInner ::
  "(string option \<Rightarrow> string \<Rightarrow> string) \<Rightarrow> string \<Rightarrow> string option \<Rightarrow> string option
     \<Rightarrow> exn + WebDavClientInner" where
  "new_WebDavClientInner getToken u user pass =
     (let b = (if endsWith u ''/'' then butlast u else u) in
      if truthy user \<and> truthy pass then
        (case atob (js_String pass) of
           Inl e \<Rightarrow> Inl e
         | Inr passwordDecoded \<Rightarrow>
             Inr \<lparr>baseUrl = b, authHeader = ''Basic '' @ getToken user passwordDecoded\<rparr>)
      else Inr \<lparr>baseUrl = b, authHeader = []\<rparr>)"

definition buildUrl :: "WebDavClientInner \<Rightarrow> string \<Rightarrow> string" where
  "buildUrl c path = baseUrl c @ (if \<not> startsWith path ''/'' then ''/'' @ path else path)"

text \<open>\<open>request\<close>: the \<open>requestOptions\<close> it builds, and the call of \<open>requestUrl\<close>.\<close>

definition requestOptions ::
  "WebDavClientInner \<Rightarrow> string \<Rightarrow> string \<Rightarrow> headers \<Rightarrow> string option \<Rightarrow> RequestUrlParam" where
  "requestOptions c u m hs b =
     \<lparr>req_url = u, req_method = m,
      req_headers = spread [(''Authorization'', authHeader c)] hs,
      req_body = b, req_throw = False\<rparr>"

definition request ::
  "'s server \<Rightarrow> WebDavClientInner \<Rightarrow> string \<Rightarrow> string \<Rightarrow> headers \<Rightarrow> string option
     \<Rightarrow> 's network \<Rightarrow> (exn + RequestUrlResponse) \<times> 's network" where
  "request srv c u m hs b w = requestUrl srv (requestOptions c u m hs b) w"

definition handleResponseCode :: "RequestUrlResponse \<Rightarrow> exn + unit" where
  "handleResponseCode response =
     (if status response \<ge> 400
      then Inl (Error (show_nat (status response) @ '' '' @
                  (case resp_text response of None \<Rightarrow> ''Unknown error'' | Some t \<Rightarrow> t)))
      else Inr ())"

definition customRequest ::
  "'s server \<Rightarrow> WebDavClientInner \<Rightarrow> string \<Rightarrow> string \<Rightarrow> headers \<Rightarrow> string option
     \<Rightarrow> 's network \<Rightarrow> (exn + RequestUrlResponse) \<times> 's network" where
  "customRequest srv c path m hs b w = request srv c (buildUrl c (encodePath path)) m hs b w"

definition createDirectory ::
  "'s server \<Rightarrow> WebDavClientInner \<Rightarrow> string \<Rightarrow> 's network
     \<Rightarrow> (exn + RequestUrlResponse) \<times> 's network" where
  "createDirectory srv c path w = request srv c (buildUrl c (encodePath path)) ''MKCOL'' [] None w"


definition deleteFile ::
  "'s server \<Rightarrow> WebDavClientInner \<Rightarrow> string \<Rightarrow> 's network \<Rightarrow> (exn + unit) \<times> 's network" where
  "deleteFile srv c path w =
     (case request srv c (buildUrl c (encodePath path)) ''DELETE'' [] None w of
        (Inl e, w1) \<Rightarrow> (Inl e, w1)
      | (Inr response, w1) \<Rightarrow> (handleResponseCode response, w1))"

text \<open>\<open>exists\<close>: 200 is true, 404 is false, then \<open>handleResponseCode\<close>, then false.\<close>

definition exists ::
  "'s server \<Rightarrow> WebDavClientInner \<Rightarrow> string \<Rightarrow> 's network \<Rightarrow> (exn + bool) \<times> 's network" where
  "exists srv c path w =
     (case request srv c (buildUrl c (encodePath path)) ''HEAD'' [] None w of
        (Inl e, w1) \<Rightarrow> (Inl e, w1)
      | (Inr response, w1) \<Rightarrow>
          if status response = 200 then (Inr True, w1)
          else if status response = 404 then (Inr False, w1)
          else (case handleResponseCode response of
                  Inl e \<Rightarrow> (Inl e, w1)
                | Inr _ \<Rightarrow> (Inr False, w1)))"

text \<open>
  \<open>ensureDirectoryExists\<close>: the loop over the directories, with \<open>currentPath\<close> as it stands
  before the step. The warning on the console is not modelled.
\<close>

fun ensureDirectories ::
  "'s server \<Rightarrow> WebDavClientInner \<Rightarrow> string \<Rightarrow> string list \<Rightarrow> 's network
     \<Rightarrow> (exn + unit) \<times> 's network" where
  "ensureDirectories srv c currentPath [] w = (Inr (), w)"
| "ensureDirectories srv c currentPath (dir # dirs) w =
     (case createDirectory srv c (currentPath @ ''/'' @ dir) w of
        (Inl e, w1) \<Rightarrow> (Inl e, w1)
      | (Inr response, w1) \<Rightarrow>
          if status response \<in> {405, 409}
          then ensureDirectories srv c (currentPath @ ''/'' @ dir) dirs w1
          else (case handleResponseCode response of
                  Inl e \<Rightarrow> (Inl e, w1)
                | Inr _ \<Rightarrow> ensureDirectories srv c (currentPath @ ''/'' @ dir) dirs w1))"

definition ensureDirectoryExists ::
  "'s server \<Rightarrow> WebDavClientInner \<Rightarrow> string \<Rightarrow> 's network \<Rightarrow> (exn + unit) \<times> 's network" where
  "ensureDirectoryExists srv c path w =
     ensureDirectories srv c [] (filter (\<lambda>dir. dir \<noteq> []) (js_split CHR ''/'' path)) w"

text \<open>
  \<open>putFileContents\<close> calls itself after a 409, and nothing bounds the calls: a partial
  function, \<open>None\<close> when it never returns. It returns \<open>true\<close>, or \<open>undefined\<close> by the bare
  \<open>return\<close> after the inner call.
\<close>

datatype js_value = JsTrue | JsUndefined

partial_function (option) putFileContents ::
  "'s server \<Rightarrow> WebDavClientInner \<Rightarrow> string \<Rightarrow> string \<Rightarrow> 's network
     \<Rightarrow> ((exn + js_value) \<times> 's network) option" where
  "putFileContents srv c path data w =
     (case request srv c (buildUrl c (encodePath path)) ''PUT''
             [(''Content-Type'', ''application/octet-stream'')] (Some data) w of
        (Inl e, w1) \<Rightarrow> Some (Inl e, w1)
      | (Inr response, w1) \<Rightarrow>
          if status response = 409 then
            (case ensureDirectoryExists srv c
                    (substring0 path (lastIndexOf path CHR ''/'')) w1 of
               (Inl e, w2) \<Rightarrow> Some (Inl e, w2)
             | (Inr _, w2) \<Rightarrow>
                 Option.bind (putFileContents srv c path data w2)
                   (\<lambda>inner. case fst inner of
                               Inl e \<Rightarrow> Some (Inl e, snd inner)
                             | Inr _ \<Rightarrow> Some (Inr JsUndefined, snd inner)))
          else
            (case handleResponseCode response of
               Inl e \<Rightarrow> Some (Inl e, w1)
             | Inr _ \<Rightarrow> Some (Inr JsTrue, w1)))"

text \<open>
  \<open>moveFile\<close> calls itself after a 404, 409 or 500, the existence check included. Both of its
  \<open>throw\<close> statements build the same error.
\<close>

definition destinationExists :: "string \<Rightarrow> exn" where
  "destinationExists newPath =
     Error (''Destination file already exists: '' @ [CHR 0x27] @ newPath @ [CHR 0x27])"

partial_function (option) moveFile ::
  "'s server \<Rightarrow> WebDavClientInner \<Rightarrow> string \<Rightarrow> string \<Rightarrow> bool \<Rightarrow> 's network
     \<Rightarrow> ((exn + unit) \<times> 's network) option" where
  "moveFile srv c oldPath newPath overwrite w =
     (case (if \<not> overwrite then
              (case exists srv c newPath w of
                 (Inl e, w0) \<Rightarrow> (Inl e, w0)
               | (Inr ex, w0) \<Rightarrow>
                   if ex then (Inl (destinationExists newPath), w0) else (Inr (), w0))
            else (Inr (), w)) of
        (Inl e, w1) \<Rightarrow> Some (Inl e, w1)
      | (Inr _, w1) \<Rightarrow>
          (case request srv c (buildUrl c (encodePath oldPath)) ''MOVE''
                  [(''Destination'', buildUrl c (encodePath newPath)),
                   (''Overwrite'', if overwrite then ''T'' else ''F'')] None w1 of
             (Inl e, w2) \<Rightarrow> Some (Inl e, w2)
           | (Inr response, w2) \<Rightarrow>
               if status response \<in> {404, 409, 500} then
                 (case ensureDirectoryExists srv c
                         (substring0 newPath (lastIndexOf newPath CHR ''/'')) w2 of
                    (Inl e, w3) \<Rightarrow> Some (Inl e, w3)
                  | (Inr _, w3) \<Rightarrow> moveFile srv c oldPath newPath overwrite w3)
               else if status response = 412 then
                 Some (Inl (destinationExists newPath), w2)
               else Some (handleResponseCode response, w2)))"

declare putFileContents.simps [code]
declare moveFile.simps [code]

section \<open>\<open>WebDavClient\<close>\<close>

record WebDavClient =
  settings :: WebDavImageUploaderSettings
  client :: WebDavClientInner

definition initClient ::
  "(string option \<Rightarrow> string \<Rightarrow> string) \<Rightarrow> WebDavImageUploaderSettings \<Rightarrow> exn + WebDavClient" where
  "initClient getToken st =
     (case new_WebDavClientInner getToken (url st) (username st) (password st) of
        Inl e \<Rightarrow> Inl e
      | Inr c \<Rightarrow> Inr \<lparr>settings = st, client = c\<rparr>)"

record File =
  file_name :: string
  file_bytes :: string

record FileInfo =
  fileName :: string
  fileUrl :: string

definition uploadFailed :: "string \<Rightarrow> exn" where
  "uploadFailed name = Error (''Failed to upload file: '' @ [CHR 0x27] @ name @ [CHR 0x27])"

definition uploadFile ::
  "'s server \<Rightarrow> WebDavClient \<Rightarrow> File \<Rightarrow> string \<Rightarrow> 's network
     \<Rightarrow> ((exn + FileInfo) \<times> 's network) option" where
  "uploadFile srv wc file path w =
     Option.bind (putFileContents srv (client wc) path (file_bytes file) w)
       (\<lambda>r. case fst r of
               Inl e \<Rightarrow> Some (Inl e, snd r)
             | Inr success \<Rightarrow>
                 if success \<noteq> JsTrue
                 then Some (Inl (uploadFailed (file_name file)), snd r)
                 else (case getUrl (settings wc) path of
                         Inl e \<Rightarrow> Some (Inl e, snd r)
                       | Inr u \<Rightarrow> Some (Inr \<lparr>fileName = file_name file, fileUrl = u\<rparr>, snd r)))"


text \<open>\<open>WebDavClient.deleteFile\<close>: the path is taken from the URL with \<open>getPath\<close>.\<close>

definition WebDavClient_deleteFile ::
  "'s server \<Rightarrow> WebDavClient \<Rightarrow> string \<Rightarrow> 's network \<Rightarrow> (exn + unit) \<times> 's network" where
  "WebDavClient_deleteFile srv wc u w =
     (case getPath (settings wc) u of
        Inl e \<Rightarrow> (Inl e, w)
      | Inr path \<Rightarrow> deleteFile srv (client wc) path w)"

text \<open>\<open>try { ... } catch (e) { ... }\<close>.\<close>

definition try_catch ::
  "('w \<Rightarrow> (exn + 'a) \<times> 'w) \<Rightarrow> (exn \<Rightarrow> 'w \<Rightarrow> (exn + 'a) \<times> 'w) \<Rightarrow> 'w \<Rightarrow> (exn + 'a) \<times> 'w" where
  "try_catch body handler w =
     (case body w of
        (Inl e, w1) \<Rightarrow> handler e w1
      | (Inr v, w1) \<Rightarrow> (Inr v, w1))"

text \<open>\<open>testConnection\<close>: \<open>None\<close> is \<open>null\<close>.\<close>

definition testConnection ::
  "'s server \<Rightarrow> WebDavClient \<Rightarrow> 's network \<Rightarrow> (exn + string option) \<times> 's network" where
  "testConnection srv wc w =
     try_catch
       (\<lambda>w0. case customRequest srv (client wc) ''/'' ''PROPFIND'' [(''Depth'', ''0'')] None w0 of
                (Inl e, w1) \<Rightarrow> (Inl e, w1)
              | (Inr resp, w1) \<Rightarrow>
                  if status resp = 207 then (Inr None, w1)
                  else (Inr (Some (''Check connection failed: '' @ show_nat (status resp))), w1))
       (\<lambda>e w1. (Inr (Some (exnString e)), w1))
       w"

section \<open>The image loader\<close>

text \<open>
  The page: the network, the image elements (an element is known by its number; \<open>el.src\<close> is
  kept as the string last assigned), the theme, the object URLs made by
  \<open>URL.createObjectURL\<close> with the bytes behind them, the object URLs revoked, the loader's
  \<open>blobs\<close> and the extension's \<open>images\<close>. A JavaScript \<open>Map\<close> is an association list in
  insertion order (\<open>set\<close> overwrites in place or adds at the end), a \<open>Set\<close> a list in insertion
  order. One task runs at a time, so a load is modelled from its start to its end: nothing
  else runs while it waits for the response.
\<close>

definition loadingLight :: string where
  "loadingLight = ''data:image/svg+xml;base64,PHN2ZyB4bWxucz0iaHR0cDovL3d3dy53My5vcmcvMjAwMC9zdmciIHdpZHRoPSI0OCIgaGVpZ2h0PSI0OCIgdmlld0JveD0iMCAwIDI0IDI0Ij48Y2lyY2xlIGN4PSIxMiIgY3k9IjEyIiByPSIzIiBzdHJva2U9IiMwMDAwMDAiIHN0cm9rZS13aWR0aD0iMiIgZmlsbD0ibm9uZSIgc3Ryb2tlLWRhc2hhcnJheT0iNiwgMzAiPjxhbmltYXRlVHJhbnNmb3JtIGF0dHJpYnV0ZU5hbWU9InRyYW5zZm9ybSIgdHlwZT0icm90YXRlIiBmcm9tPSIwIDEyIDEyIiB0bz0iMzYwIDEyIDEyIiBkdXI9IjFzIiByZXBlYXRDb3VudD0iaW5kZWZpbml0ZSIvPjwvY2lyY2xlPjwvc3ZnPg==''"

definition loadingDark :: string where
  "loadingDark = ''data:image/svg+xml;base64,PHN2ZyB4bWxucz0iaHR0cDovL3d3dy53My5vcmcvMjAwMC9zdmciIHdpZHRoPSI0OCIgaGVpZ2h0PSI0OCIgdmlld0JveD0iMCAwIDI0IDI0Ij48Y2lyY2xlIGN4PSIxMiIgY3k9IjEyIiByPSIzIiBzdHJva2U9IiNmZmZmZmYiIHN0cm9rZS13aWR0aD0iMiIgZmlsbD0ibm9uZSIgc3Ryb2tlLWRhc2hhcnJheT0iNiwgMzAiPjxhbmltYXRlVHJhbnNmb3JtIGF0dHJpYnV0ZU5hbWU9InRyYW5zZm9ybSIgdHlwZT0icm90YXRlIiBmcm9tPSIwIDEyIDEyIiB0bz0iMzYwIDEyIDEyIiBkdXI9IjFzIiByZXBlYXRDb3VudD0iaW5kZWZpbml0ZSIvPjwvY2lyY2xlPjwvc3ZnPg==''"

record HTMLImageElement =
  src :: string
  attributes :: "(string \<times> string) list"
  onload_revokes :: bool

record 's page =
  network :: "'s network"
  elements :: "nat \<Rightarrow> HTMLImageElement"
  theme_dark :: bool
  objectUrls :: "(string \<times> string) list"
  revokedUrls :: "string list"
  blobs :: "(string \<times> string) list"
  images :: "nat list"
  observing :: bool

text \<open>
  What the loader takes from outside: the plugin's settings and its \<open>isWebdavUrl\<close> (the main
  module is not among the sources), \<open>getToken\<close> of the \<open>utils\<close> module, the server, and the
  name that \<open>URL.createObjectURL\<close> gives to the n-th object URL of the page.
\<close>

record 's plugin =
  plugin_settings :: WebDavImageUploaderSettings
  isWebdavUrl :: "string \<Rightarrow> bool"
  getToken :: "string option \<Rightarrow> string \<Rightarrow> string"
  server :: "'s server"
  objectUrlName :: "nat \<Rightarrow> string"

definition set_src :: "nat \<Rightarrow> string \<Rightarrow> 's page \<Rightarrow> 's page" where
  "set_src el v pg = pg\<lparr>elements := (elements pg)(el := (elements pg el)\<lparr>src := v\<rparr>)\<rparr>"

definition setAttribute :: "nat \<Rightarrow> string \<Rightarrow> string \<Rightarrow> 's page \<Rightarrow> 's page" where
  "setAttribute el k v pg =
     pg\<lparr>elements := (elements pg)(el := (elements pg el)
            \<lparr>attributes := AList.update k v (attributes (elements pg el))\<rparr>)\<rparr>"

definition getAttribute :: "nat \<Rightarrow> string \<Rightarrow> 's page \<Rightarrow> string option" where
  "getAttribute el k pg = map_of (attributes (elements pg el)) k"

definition set_onload :: "nat \<Rightarrow> 's page \<Rightarrow> 's page" where
  "set_onload el pg = pg\<lparr>elements := (elements pg)(el := (elements pg el)\<lparr>onload_revokes := True\<rparr>)\<rparr>"

definition createObjectURL :: "'s plugin \<Rightarrow> string \<Rightarrow> 's page \<Rightarrow> string \<times> 's page" where
  "createObjectURL pl blob pg =
     (objectUrlName pl (length (objectUrls pg)),
      pg\<lparr>objectUrls := objectUrls pg @ [(objectUrlName pl (length (objectUrls pg)), blob)]\<rparr>)"

definition revokeObjectURL :: "string \<Rightarrow> 's page \<Rightarrow> 's page" where
  "revokeObjectURL u pg = pg\<lparr>revokedUrls := revokedUrls pg @ [u]\<rparr>"

definition shouldLoadImage :: "'s plugin \<Rightarrow> nat \<Rightarrow> 's page \<Rightarrow> bool" where
  "shouldLoadImage pl el pg =
     (getAttribute el ''webdav-loaded'' pg \<noteq> Some ''true''
      \<and> src (elements pg el) \<noteq> []
      \<and> isWebdavUrl pl (src (elements pg el)))"

text \<open>
  \<open>WebDavImageLoader.loadImage\<close>, and the request of its fetch: \<open>throw\<close> is not switched off.
\<close>

definition fetch_request :: "'s plugin \<Rightarrow> string \<Rightarrow> string \<Rightarrow> RequestUrlParam" where
  "fetch_request pl u passwordDecoded =
     \<lparr>req_url = u, req_method = ''GET'',
      req_headers = [(''Authorization'',
                      ''Basic '' @ getToken pl (username (plugin_settings pl)) passwordDecoded)],
      req_body = None, req_throw = True\<rparr>"

definition loader_loadImage ::
  "'s plugin \<Rightarrow> nat \<Rightarrow> bool \<Rightarrow> 's page \<Rightarrow> (exn + unit) \<times> 's page" where
  "loader_loadImage pl el cache pg =
     (if \<not> shouldLoadImage pl el pg then (Inr (), pg)
      else
        let u = src (elements pg el) in
        case map_of (blobs pg) u of
          Some blobUrl \<Rightarrow> (Inr (), setAttribute el ''loaded'' ''true'' (set_src el blobUrl pg))
        | None \<Rightarrow>
            let pg1 = set_src el (if theme_dark pg then loadingDark else loadingLight) pg in
            case atob (js_String (password (plugin_settings pl))) of
              Inl e \<Rightarrow> (Inl e, pg1)
            | Inr passwordDecoded \<Rightarrow>
                (case requestUrl (server pl) (fetch_request pl u passwordDecoded) (network pg1) of
                   (Inl e, w1) \<Rightarrow> (Inl e, pg1\<lparr>network := w1\<rparr>)
                 | (Inr resp, w1) \<Rightarrow>
                     (case createObjectURL pl (arrayBuffer resp) (pg1\<lparr>network := w1\<rparr>) of
                        (blobUrl, pg2) \<Rightarrow>
                          let pg3 = setAttribute el ''loaded'' ''true'' (set_src el blobUrl pg2) in
                          if cache
                          then (Inr (), pg3\<lparr>blobs := AList.update u (src (elements pg3 el)) (blobs pg3)\<rparr>)
                          else (Inr (), set_onload el pg3))))"

text \<open>\<open>WebDavImageLoader.revokeImage\<close> and \<open>WebDavImageLoader.destroy\<close>.\<close>

definition revokeImage :: "nat \<Rightarrow> 's page \<Rightarrow> 's page" where
  "revokeImage el pg =
     (case map_of (blobs pg) (src (elements pg el)) of
        Some blobUrl \<Rightarrow>
          (revokeObjectURL blobUrl pg)\<lparr>blobs := AList.delete (src (elements pg el)) (blobs pg)\<rparr>
      | None \<Rightarrow> pg)"

definition loader_destroy :: "'s page \<Rightarrow> 's page" where
  "loader_destroy pg =
     (foldl (\<lambda>p kv. revokeObjectURL (snd kv) p) pg (blobs pg))\<lparr>blobs := []\<rparr>"

text \<open>\<open>WebDavImageLoaderExtension.loadImage\<close> and \<open>WebDavImageLoaderExtension.destroy\<close>.\<close>

definition extension_loadImage :: "'s plugin \<Rightarrow> nat \<Rightarrow> 's page \<Rightarrow> (exn + unit) \<times> 's page" where
  "extension_loadImage pl el pg =
     (if el \<in> set (images pg) then (Inr (), pg)
      else
        case loader_loadImage pl el True pg of
          (Inl e, pg1) \<Rightarrow> (Inl e, pg1)
        | (Inr _, pg1) \<Rightarrow>
            (Inr (), pg1\<lparr>images := (if el \<in> set (images pg1) then images pg1
                                    else images pg1 @ [el])\<rparr>))"

definition extension_destroy :: "'s page \<Rightarrow> 's page" where
  "extension_destroy pg =
     (foldl (\<lambda>p el. revokeImage el p) (pg\<lparr>observing := False\<rparr>) (images pg))\<lparr>images := []\<rparr>"

section \<open>What an operation sends\<close>

text \<open>The network after a request has been delivered to the server.\<close>

definition delivered :: "'s server \<Rightarrow> RequestUrlParam \<Rightarrow> 's network \<Rightarrow> 's network" where
  "delivered srv p w = \<lparr>server_state = snd (srv (server_state w) p), sent = sent w @ [p]\<rparr>"

text \<open>The requests that the operations of \<open>WebDavClientInner\<close> build.\<close>

definition put_request :: "WebDavClientInner \<Rightarrow> string \<Rightarrow> string \<Rightarrow> RequestUrlParam" where
  "put_request c path data =
     requestOptions c (buildUrl c (encodePath path)) ''PUT''
       [(''Content-Type'', ''application/octet-stream'')] (Some data)"

definition move_request ::
  "WebDavClientInner \<Rightarrow> string \<Rightarrow> string \<Rightarrow> bool \<Rightarrow> RequestUrlParam" where
  "move_request c oldPath newPath overwrite =
     requestOptions c (buildUrl c (encodePath oldPath)) ''MOVE''
       [(''Destination'', buildUrl c (encodePath newPath)),
        (''Overwrite'', if overwrite then ''T'' else ''F'')] None"

definition head_request :: "WebDavClientInner \<Rightarrow> string \<Rightarrow> RequestUrlParam" where
  "head_request c path = requestOptions c (buildUrl c (encodePath path)) ''HEAD'' [] None"

definition mkcol_request :: "WebDavClientInner \<Rightarrow> string \<Rightarrow> RequestUrlParam" where
  "mkcol_request c path = requestOptions c (buildUrl c (encodePath path)) ''MKCOL'' [] None"

text \<open>
  A directory pass: the values of \<open>currentPath\<close> in the loop of \<open>ensureDirectoryExists\<close>, and
  the MKCOL requests of a pass that goes through all of them.
\<close>

fun currentPaths :: "string \<Rightarrow> string list \<Rightarrow> string list" where
  "currentPaths currentPath [] = []"
| "currentPaths currentPath (dir # dirs) =
     (currentPath @ ''/'' @ dir) # currentPaths (currentPath @ ''/'' @ dir) dirs"

definition directory_pass :: "WebDavClientInner \<Rightarrow> string \<Rightarrow> RequestUrlParam list" where
  "directory_pass c path =
     map (mkcol_request c)
       (currentPaths [] (filter (\<lambda>dir. dir \<noteq> []) (js_split CHR ''/'' path)))"

definition parent_directory :: "string \<Rightarrow> string" where
  "parent_directory path = substring0 path (lastIndexOf path CHR ''/'')"



section \<open>Counting requests, and the servers of the examples\<close>

definition issued :: "string \<Rightarrow> 's network \<Rightarrow> nat" where
  "issued verb w = length (filter (\<lambda>r. req_method r = verb) (sent w))"

definition answer :: "nat \<Rightarrow> exn + RequestUrlResponse" where
  "answer st = Inr \<lparr>status = st, resp_text = None, arrayBuffer = []\<rparr>"

text \<open>A server that gives the same status to every request.\<close>

definition constant_server :: "nat \<Rightarrow> unit server" where
  "constant_server st s r = (answer st, s)"

text \<open>
  A server that gives the status \<open>st\<close> to the next \<open>n\<close> requests of the method \<open>verb\<close>,
  \<open>n\<close> being its state, and 201 to every other request.
\<close>

definition refusing_server :: "string \<Rightarrow> nat \<Rightarrow> nat server" where
  "refusing_server verb st n r =
     (if req_method r = verb \<and> n > 0 then (answer st, n - 1) else (answer 201, n))"

text \<open>A server that gives the status \<open>st\<close> to every request of the method \<open>verb\<close>.\<close>

definition stubborn_server :: "string \<Rightarrow> nat \<Rightarrow> unit server" where
  "stubborn_server verb st s r = (if req_method r = verb then (answer st, s) else (answer 201, s))"

text \<open>A server that cannot be reached: every request fails without a response.\<close>

definition unreachable_server :: "string \<Rightarrow> unit server" where
  "unreachable_server rendering s r = (Inl (NetworkFailure rendering), s)"

definition example_client :: WebDavClientInner where
  "example_client = \<lparr>baseUrl = ''https://dav.example.com/remote'', authHeader = ''Basic dTpw''\<rparr>"

definition example_settings :: WebDavImageUploaderSettings where
  "example_settings =
     \<lparr>url = ''https://dav.example.com/remote'', username = Some ''u'', password = Some ''cA=='',
      token = Some []\<rparr>"

definition example_WebDavClient :: WebDavClient where
  "example_WebDavClient = \<lparr>settings = example_settings, client = example_client\<rparr>"

definition start :: "'s \<Rightarrow> 's network" where
  "start s = \<lparr>server_state = s, sent = []\<rparr>"

text \<open>A plugin and a page for the examples: one image element, number 0, that shows a remote image.\<close>

definition example_plugin :: "unit plugin" where
  "example_plugin =
     \<lparr>plugin_settings = example_settings,
      isWebdavUrl = (\<lambda>u. startsWith u ''https://dav.example.com/remote''),
      getToken = (\<lambda>user pass. ''dTpw''),
      server = constant_server 200,
      objectUrlName = (\<lambda>n. ''blob:app://obsidian.md/'' @ show_nat n)\<rparr>"

definition example_page :: "unit page" where
  "example_page =
     \<lparr>network = start (),
      elements = (\<lambda>el. \<lparr>src = ''https://dav.example.com/remote/notes/img.png'',
                         attributes = [], onload_revokes = False\<rparr>),
      theme_dark = False, objectUrls = [], revokedUrls = [], blobs = [], images = [],
      observing = True\<rparr>"

section \<open>The wire form of a path\<close>

lemma js_split_ne: "js_split sep s \<noteq> []"
  by (induction s) auto

lemma js_join_split: "js_join sep (js_split sep s) = s"
proof (induction s)
  case Nil show ?case by simp
next
  case (Cons c cs)
  obtain x xs where sp: "js_split sep cs = x # xs"
    using js_split_ne [of sep cs] by (cases "js_split sep cs") auto
  with Cons show ?case by (cases xs) auto
qed

lemma js_split_append_sep:
  "sep \<notin> set s \<Longrightarrow> js_split sep (s @ sep # t) = s # js_split sep t"
  by (induction s) auto

lemma js_split_no_sep: "sep \<notin> set s \<Longrightarrow> js_split sep s = [s]"
  by (induction s) auto

lemma js_split_join:
  "segs \<noteq> [] \<Longrightarrow> \<forall>s \<in> set segs. sep \<notin> set s \<Longrightarrow> js_split sep (js_join sep segs) = segs"
proof (induction segs rule: js_join.induct)
  case (1 sep) then show ?case by simp
next
  case (2 sep s) then show ?case by (simp add: js_split_no_sep)
next
  case (3 sep s t ts)
  then show ?case by (simp add: js_split_append_sep)
qed

lemma js_split_segments: "\<forall>s \<in> set (js_split sep p). sep \<notin> set s"
proof (induction p)
  case Nil show ?case by simp
next
  case (Cons c cs)
  obtain x xs where sp: "js_split sep cs = x # xs"
    using js_split_ne [of sep cs] by (cases "js_split sep cs") auto
  with Cons show ?case by auto
qed

lemma hexDigit_table:
  "\<forall>n \<in> set [0..<16]. unhex (hexDigit n) = Some n \<and> hexDigit n \<noteq> CHR ''/''"
  by code_simp

lemma hexDigit_not_slash: "hexDigit n \<noteq> CHR ''/''"
proof -
  have "n mod 16 \<in> set [0..<16]" by simp
  with hexDigit_table have "hexDigit (n mod 16) \<noteq> CHR ''/''" by blast
  then show ?thesis by (simp add: hexDigit_def)
qed

lemma unhex_hexDigit: "n < 16 \<Longrightarrow> unhex (hexDigit n) = Some n"
proof -
  assume "n < 16"
  then have "n \<in> set [0..<16]" by simp
  with hexDigit_table show ?thesis by blast
qed

lemma slash_escaped: "\<not> uriUnescaped CHR ''/''"
  by (simp add: uriUnescaped_def uriAlpha_def uriMark_def)

lemma percent_escaped: "\<not> uriUnescaped CHR ''%''"
  by (simp add: uriUnescaped_def uriAlpha_def uriMark_def)

lemma encodeURIComponent_no_slash: "CHR ''/'' \<notin> set (encodeURIComponent s)"
proof (induction s)
  case Nil show ?case by (simp add: encodeURIComponent_def encodeWith_def)
next
  case (Cons c cs)
  have "CHR ''/'' \<notin> set (if uriUnescaped c then [c] else percentEncode c)"
    using slash_escaped hexDigit_not_slash [of "of_char c div 16"]
      hexDigit_not_slash [of "of_char c mod 16"]
    by (auto simp: percentEncode_def)
  with Cons show ?case by (simp add: encodeURIComponent_def encodeWith_def)
qed

lemma spec_decode_percentEncode:
  "spec_decode (percentEncode c @ rest) = map_option ((#) c) (spec_decode rest)"
proof -
  have a: "(of_char c :: nat) div 16 < 16"
  proof -
    have "(of_char c :: nat) mod 256 < 256" by (rule mod_less_divisor) simp
    then have "(of_char c :: nat) < 256" by simp
    then show ?thesis by arith
  qed
  have "16 * ((of_char c :: nat) div 16) + of_char c mod 16 = of_char c" by simp
  then show ?thesis
    using a by (simp add: percentEncode_def unhex_hexDigit)
qed

lemma spec_decode_encode: "spec_decode (encodeURIComponent s) = Some s"
proof (induction s)
  case Nil show ?case by (simp add: encodeURIComponent_def encodeWith_def)
next
  case (Cons c cs)
  show ?case
  proof (cases "uriUnescaped c")
    case True
    then have "c \<noteq> CHR ''%''" using percent_escaped by auto
    with True Cons show ?thesis by (simp add: encodeURIComponent_def encodeWith_def)
  next
    case False
    have "encodeURIComponent (c # cs) = percentEncode c @ encodeURIComponent cs"
      using False by (simp add: encodeURIComponent_def encodeWith_def)
    with Cons show ?thesis by (simp add: spec_decode_percentEncode)
  qed
qed

lemma collect_Some: "collect (map Some xs) = Some xs"
  by (induction xs) auto

lemma split_encodePath:
  "js_split CHR ''/'' (encodePath p) = map encodeURIComponent (js_split CHR ''/'' p)"
  unfolding encodePath_def
  by (rule js_split_join) (auto simp: js_split_ne encodeURIComponent_no_slash)

lemma length_js_split: "length (js_split sep s) = Suc (count_list s sep)"
proof (induction s)
  case Nil show ?case by simp
next
  case (Cons c cs)
  obtain x xs where sp: "js_split sep cs = x # xs"
    using js_split_ne [of sep cs] by (cases "js_split sep cs") auto
  with Cons show ?case by auto
qed

text \<open>
  Claim C9. \<open>encodePath\<close> splits the path on \<open>'/'\<close>, percent-encodes each segment and joins
  them with \<open>'/'\<close>: splitting the encoded path gives the encoded segments of the path, so each
  separating slash stays a slash and there are as many slashes as before, and decoding the
  result segment by segment gives the path back, for every path.
\<close>

theorem encodePath_roundtrip:
  "js_split CHR ''/'' (encodePath p) = map encodeURIComponent (js_split CHR ''/'' p)
   \<and> spec_decodePath (encodePath p) = Some p
   \<and> count_list (encodePath p) CHR ''/'' = count_list p CHR ''/''"
proof -
  have a: "js_split CHR ''/'' (encodePath p) = map encodeURIComponent (js_split CHR ''/'' p)"
    by (rule split_encodePath)
  have "map spec_decode (js_split CHR ''/'' (encodePath p)) = map Some (js_split CHR ''/'' p)"
    by (simp add: a spec_decode_encode)
  then have b: "spec_decodePath (encodePath p) = Some p"
    by (simp add: spec_decodePath_def collect_Some js_join_split)
  have "length (js_split CHR ''/'' (encodePath p)) = length (js_split CHR ''/'' p)"
    by (simp add: a)
  then have c: "count_list (encodePath p) CHR ''/'' = count_list p CHR ''/''"
    by (simp add: length_js_split)
  from a b c show ?thesis by simp
qed

section \<open>Requests\<close>

lemma requestOptions_sel [simp]:
  "req_url (requestOptions c u m hs b) = u"
  "req_method (requestOptions c u m hs b) = m"
  "req_body (requestOptions c u m hs b) = b"
  "req_throw (requestOptions c u m hs b) = False"
  by (simp_all add: requestOptions_def)

lemma request_Inr:
  "fst (srv (server_state w) (requestOptions c u m hs b)) = Inr response \<Longrightarrow>
   request srv c u m hs b w =
     (Inr response,
      \<lparr>server_state = snd (srv (server_state w) (requestOptions c u m hs b)),
       sent = sent w @ [requestOptions c u m hs b]\<rparr>)"
  by (simp add: request_def requestUrl_def Let_def)

lemma request_Inl:
  "fst (srv (server_state w) (requestOptions c u m hs b)) = Inl e \<Longrightarrow>
   request srv c u m hs b w =
     (Inl e,
      \<lparr>server_state = snd (srv (server_state w) (requestOptions c u m hs b)),
       sent = sent w @ [requestOptions c u m hs b]\<rparr>)"
  by (simp add: request_def requestUrl_def Let_def)

section \<open>The existence check\<close>

text \<open>
  Claim C10. When the server answers the HEAD request of \<open>exists\<close> with a response, a status
  that is neither 200 nor 404 and is below 400 makes \<open>exists\<close> return false, and \<open>exists\<close>
  raises exactly when the status is 400 or more and is not 404.
\<close>

theorem exists_by_status:
  assumes "fst (srv (server_state w)
                 (requestOptions c (buildUrl c (encodePath path)) ''HEAD'' [] None)) = Inr response"
  shows "(status response \<noteq> 200 \<and> status response \<noteq> 404 \<and> status response < 400
            \<longrightarrow> fst (exists srv c path w) = Inr False)
       \<and> ((\<exists>e. fst (exists srv c path w) = Inl e)
            \<longleftrightarrow> (400 \<le> status response \<and> status response \<noteq> 404))"
  using request_Inr [where srv = srv and w = w, OF assms]
  by (auto simp: exists_def handleResponseCode_def)

text \<open>
  A server that answers 204: \<open>exists\<close> returns false and raises nothing.
\<close>

theorem exists_by_status_witness:
  "fst (exists (constant_server 204) example_client ''/notes/img.png'' (start ())) = Inr False
   \<and> (\<nexists>e. fst (exists (constant_server 204) example_client ''/notes/img.png'' (start ())) = Inl e)"
  using exists_by_status [of "constant_server 204" "start ()" example_client "''/notes/img.png''"
      "\<lparr>status = 204, resp_text = None, arrayBuffer = []\<rparr>"]
  by (simp add: constant_server_def answer_def)

section \<open>The connection test\<close>

text \<open>
  Claim C8. \<open>testConnection\<close> never throws: whatever the server does with the PROPFIND request,
  it returns a value; the value is \<open>null\<close> exactly when a response with status 207 arrived; for
  a response with another status it is the string "Check connection failed: " followed by the
  status, and for a request that failed without a response it is the rendering of what was
  thrown.
\<close>

theorem testConnection_total:
  "(\<exists>r. fst (testConnection srv wc w) = Inr r)
   \<and> (fst (testConnection srv wc w) = Inr None
        \<longleftrightarrow> (\<exists>response. fst (srv (server_state w)
                              (requestOptions (client wc) (buildUrl (client wc) (encodePath ''/''))
                                 ''PROPFIND'' [(''Depth'', ''0'')] None)) = Inr response
                          \<and> status response = 207))
   \<and> (\<forall>response. fst (srv (server_state w)
                         (requestOptions (client wc) (buildUrl (client wc) (encodePath ''/''))
                            ''PROPFIND'' [(''Depth'', ''0'')] None)) = Inr response
                     \<and> status response \<noteq> 207
        \<longrightarrow> fst (testConnection srv wc w)
              = Inr (Some (''Check connection failed: '' @ show_nat (status response))))
   \<and> (\<forall>e. fst (srv (server_state w)
                  (requestOptions (client wc) (buildUrl (client wc) (encodePath ''/''))
                     ''PROPFIND'' [(''Depth'', ''0'')] None)) = Inl e
        \<longrightarrow> fst (testConnection srv wc w) = Inr (Some (exnString e)))"
proof (cases "fst (srv (server_state w)
                  (requestOptions (client wc) (buildUrl (client wc) (encodePath ''/''))
                     ''PROPFIND'' [(''Depth'', ''0'')] None))")
  case (Inl e)
  from request_Inl [where srv = srv and w = w, OF this] show ?thesis
    using Inl by (simp add: testConnection_def try_catch_def customRequest_def)
next
  case (Inr response)
  from request_Inr [where srv = srv and w = w, OF this] show ?thesis
    using Inr by (simp add: testConnection_def try_catch_def customRequest_def)
qed

lemma show_nat_examples:
  "show_nat 401 = ''401''" "show_nat 409 = ''409''"
  by code_simp+

text \<open>
  A server that answers 207, one that answers 401, and one that cannot be reached.
\<close>

theorem testConnection_total_witness:
  "fst (testConnection (constant_server 207) example_WebDavClient (start ())) = Inr None
   \<and> fst (testConnection (constant_server 401) example_WebDavClient (start ()))
       = Inr (Some ''Check connection failed: 401'')
   \<and> fst (testConnection (unreachable_server ''Error: net::ERR_CONNECTION_REFUSED'')
            example_WebDavClient (start ()))
       = Inr (Some ''Error: net::ERR_CONNECTION_REFUSED'')"
  using testConnection_total [of "constant_server 207" example_WebDavClient "start ()"]
    testConnection_total [of "constant_server 401" example_WebDavClient "start ()"]
    testConnection_total [of "unreachable_server ''Error: net::ERR_CONNECTION_REFUSED''"
      example_WebDavClient "start ()"]
  by (simp add: constant_server_def unreachable_server_def answer_def show_nat_examples)

section \<open>A move onto an existing destination\<close>

text \<open>
  Claim C5. With \<open>overwrite\<close> false, when the HEAD request on the destination is answered with
  status 200, \<open>moveFile\<close> raises the destination-exists error, the HEAD request is the only
  request it sends and no MOVE request is issued. And whenever the upfront check lets the call go
  on (\<open>overwrite\<close> is true, or \<open>exists\<close> returned false) and the MOVE request is answered with
  status 412, \<open>moveFile\<close> raises the destination-exists error.
\<close>

theorem moveFile_destination_exists:
  "(fst (srv (server_state w)
          (requestOptions c (buildUrl c (encodePath newPath)) ''HEAD'' [] None)) = Inr response
     \<and> status response = 200
    \<longrightarrow> (\<exists>w'. moveFile srv c oldPath newPath False w = Some (Inl (destinationExists newPath), w')
              \<and> sent w' = sent w @ [requestOptions c (buildUrl c (encodePath newPath)) ''HEAD'' [] None]
              \<and> issued ''MOVE'' w' = issued ''MOVE'' w))
   \<and> ((overwrite \<or> fst (exists srv c newPath w) = Inr False)
       \<and> fst (srv (server_state (if overwrite then w else snd (exists srv c newPath w)))
              (requestOptions c (buildUrl c (encodePath oldPath)) ''MOVE''
                 [(''Destination'', buildUrl c (encodePath newPath)),
                  (''Overwrite'', if overwrite then ''T'' else ''F'')] None)) = Inr response'
       \<and> status response' = 412
    \<longrightarrow> (\<exists>w'. moveFile srv c oldPath newPath overwrite w
                 = Some (Inl (destinationExists newPath), w')))"
proof (intro conjI impI)
  assume a: "fst (srv (server_state w)
          (requestOptions c (buildUrl c (encodePath newPath)) ''HEAD'' [] None)) = Inr response
     \<and> status response = 200"
  then have ex: "exists srv c newPath w =
      (Inr True, \<lparr>server_state = snd (srv (server_state w)
            (requestOptions c (buildUrl c (encodePath newPath)) ''HEAD'' [] None)),
         sent = sent w @ [requestOptions c (buildUrl c (encodePath newPath)) ''HEAD'' [] None]\<rparr>)"
    using request_Inr [where srv = srv and w = w and response = response
        and u = "buildUrl c (encodePath newPath)" and c = c and m = "''HEAD''" and hs = "[]" and b = None]
    by (simp add: exists_def)
  show "\<exists>w'. moveFile srv c oldPath newPath False w = Some (Inl (destinationExists newPath), w')
              \<and> sent w' = sent w @ [requestOptions c (buildUrl c (encodePath newPath)) ''HEAD'' [] None]
              \<and> issued ''MOVE'' w' = issued ''MOVE'' w"
    by (subst moveFile.simps) (simp add: ex issued_def)
next
  assume b: "(overwrite \<or> fst (exists srv c newPath w) = Inr False)
       \<and> fst (srv (server_state (if overwrite then w else snd (exists srv c newPath w)))
              (requestOptions c (buildUrl c (encodePath oldPath)) ''MOVE''
                 [(''Destination'', buildUrl c (encodePath newPath)),
                  (''Overwrite'', if overwrite then ''T'' else ''F'')] None)) = Inr response'
       \<and> status response' = 412"
  show "\<exists>w'. moveFile srv c oldPath newPath overwrite w = Some (Inl (destinationExists newPath), w')"
  proof (cases overwrite)
    case True
    with b have r: "fst (srv (server_state w)
              (requestOptions c (buildUrl c (encodePath oldPath)) ''MOVE''
                 [(''Destination'', buildUrl c (encodePath newPath)),
                  (''Overwrite'', ''T'')] None)) = Inr response'" by simp
    show ?thesis
      using True b request_Inr [where srv = srv and w = w, OF r]
      by (subst moveFile.simps) simp
  next
    case False
    with b obtain w1 where e: "exists srv c newPath w = (Inr False, w1)"
      by (cases "exists srv c newPath w") auto
    with False b have r: "fst (srv (server_state w1)
              (requestOptions c (buildUrl c (encodePath oldPath)) ''MOVE''
                 [(''Destination'', buildUrl c (encodePath newPath)),
                  (''Overwrite'', ''F'')] None)) = Inr response'" by simp
    show ?thesis
      using False b e request_Inr [where srv = srv and w = w1, OF r]
      by (subst moveFile.simps) simp
  qed
qed

text \<open>
  A server that answers 200 to everything, and one that answers 412 to MOVE and 201 to the rest.
\<close>

theorem moveFile_destination_exists_witness:
  "(\<exists>w'. moveFile (constant_server 200) example_client ''/a.png'' ''/notes/img.png'' False (start ())
            = Some (Inl (destinationExists ''/notes/img.png''), w')
         \<and> issued ''MOVE'' w' = 0)
   \<and> (\<exists>w'. moveFile (stubborn_server ''MOVE'' 412) example_client ''/a.png'' ''/notes/img.png''
              False (start ())
            = Some (Inl (destinationExists ''/notes/img.png''), w'))"
proof -
  have e: "fst (exists (stubborn_server ''MOVE'' 412) example_client ''/notes/img.png'' (start ()))
         = Inr False"
    by (simp add: exists_def request_def requestUrl_def stubborn_server_def answer_def
        start_def handleResponseCode_def Let_def)
  have m: "fst (stubborn_server ''MOVE'' 412 (server_state
              (snd (exists (stubborn_server ''MOVE'' 412) example_client ''/notes/img.png'' (start ()))))
              (requestOptions example_client (buildUrl example_client (encodePath ''/a.png'')) ''MOVE''
                 [(''Destination'', buildUrl example_client (encodePath ''/notes/img.png'')),
                  (''Overwrite'', ''F'')] None))
           = Inr \<lparr>status = 412, resp_text = None, arrayBuffer = []\<rparr>"
    by (simp add: stubborn_server_def answer_def)
  have h: "fst (constant_server 200 (server_state (start ()))
              (requestOptions example_client (buildUrl example_client (encodePath ''/notes/img.png''))
                 ''HEAD'' [] None))
           = Inr \<lparr>status = 200, resp_text = None, arrayBuffer = []\<rparr>"
    by (simp add: constant_server_def answer_def)
  have i: "issued ''MOVE'' (start ()) = 0"
    by (simp add: issued_def start_def)
  from moveFile_destination_exists [of "constant_server 200" "start ()" example_client
        "''/notes/img.png''" "\<lparr>status = 200, resp_text = None, arrayBuffer = []\<rparr>"
        "''/a.png''" False "\<lparr>status = 200, resp_text = None, arrayBuffer = []\<rparr>"] h i
  have first: "\<exists>w'. moveFile (constant_server 200) example_client ''/a.png'' ''/notes/img.png'' False (start ())
            = Some (Inl (destinationExists ''/notes/img.png''), w')
         \<and> issued ''MOVE'' w' = 0"
    by auto
  from moveFile_destination_exists [of "stubborn_server ''MOVE'' 412" "start ()" example_client
        "''/notes/img.png''" "\<lparr>status = 412, resp_text = None, arrayBuffer = []\<rparr>"
        "''/a.png''" False "\<lparr>status = 412, resp_text = None, arrayBuffer = []\<rparr>"] e m
  have second: "\<exists>w'. moveFile (stubborn_server ''MOVE'' 412) example_client ''/a.png'' ''/notes/img.png''
              False (start ())
            = Some (Inl (destinationExists ''/notes/img.png''), w')"
    by simp
  from first second show ?thesis by simp
qed

section \<open>The Authorization header\<close>

subsection \<open>The header of one request\<close>














subsection \<open>The requests of an operation\<close>

lemma snd_request: "snd (request srv c u m hs b w) = delivered srv (requestOptions c u m hs b) w"
  by (simp add: request_def requestUrl_def delivered_def Let_def split: sum.splits)





lemma request_cases:
  obtains res where "request srv c u m hs b w = (res, delivered srv (requestOptions c u m hs b) w)"
  using snd_request [of srv c u m hs b w] by (cases "request srv c u m hs b w") auto
















section \<open>An upload after a 409\<close>

text \<open>
  Claim C2 on the code. The server answers the first PUT with 409 and everything after it with
  201: \<open>putFileContents\<close> sends the PUT, creates the directory \<open>/notes\<close> and sends the PUT again,
  which succeeds; but the call returns \<open>undefined\<close>, and \<open>uploadFile\<close> raises the upload-failure
  error.
\<close>

theorem uploadFile_missing_parent:
  "map_option (\<lambda>r. (fst r, map req_method (sent (snd r)), map req_url (sent (snd r))))
     (uploadFile (refusing_server ''PUT'' 409) example_WebDavClient
        \<lparr>file_name = ''img.png'', file_bytes = ''x''\<rparr> ''/notes/img.png'' (start 1))
   = Some (Inl (uploadFailed ''img.png''),
           [''PUT'', ''MKCOL'', ''PUT''],
           [''https://dav.example.com/remote/notes/img.png'',
            ''https://dav.example.com/remote/notes'',
            ''https://dav.example.com/remote/notes/img.png''])"
  by code_simp

text \<open>
  On every server: a call of \<open>putFileContents\<close> whose PUT is answered with 409 returns
  \<open>undefined\<close> if it returns a value at all, so \<open>uploadFile\<close> raises.
\<close>

lemma putFileContents_after_409:
  assumes r: "fst (srv (server_state w)
                 (requestOptions c (buildUrl c (encodePath path)) ''PUT''
                    [(''Content-Type'', ''application/octet-stream'')] (Some data))) = Inr response"
    and st: "status response = 409"
    and ret: "putFileContents srv c path data w = Some (Inr v, w')"
  shows "v = JsUndefined"
proof -
  let ?w1 = "\<lparr>server_state = snd (srv (server_state w)
                 (requestOptions c (buildUrl c (encodePath path)) ''PUT''
                    [(''Content-Type'', ''application/octet-stream'')] (Some data))),
              sent = sent w @ [requestOptions c (buildUrl c (encodePath path)) ''PUT''
                    [(''Content-Type'', ''application/octet-stream'')] (Some data)]\<rparr>"
  obtain r2 w2 where e: "ensureDirectoryExists srv c (substring0 path (lastIndexOf path CHR ''/'')) ?w1
                         = (r2, w2)"
    by (cases "ensureDirectoryExists srv c (substring0 path (lastIndexOf path CHR ''/'')) ?w1")
  have body: "(case r2 of
                 Inl e \<Rightarrow> Some (Inl e, w2)
               | Inr _ \<Rightarrow> Option.bind (putFileContents srv c path data w2)
                   (\<lambda>inner. case fst inner of
                               Inl e \<Rightarrow> Some (Inl e, snd inner)
                             | Inr _ \<Rightarrow> Some (Inr JsUndefined, snd inner)))
              = Some (Inr v, w')"
    using ret
    by (subst (asm) putFileContents.simps)
       (simp add: request_Inr [where srv = srv and w = w, OF r] st e)
  show ?thesis
  proof (cases r2)
    case (Inl e)
    with body show ?thesis by simp
  next
    case (Inr u)
    with body show ?thesis
      by (auto simp: Option.bind_eq_Some_conv split: sum.splits) (metis sum.exhaust)
  qed
qed

lemma uploadFile_after_409:
  assumes r: "fst (srv (server_state w)
                 (requestOptions (client wc) (buildUrl (client wc) (encodePath path)) ''PUT''
                    [(''Content-Type'', ''application/octet-stream'')] (Some (file_bytes file)))) = Inr response"
    and st: "status response = 409"
    and ret: "uploadFile srv wc file path w = Some (res, w')"
  shows "\<exists>e. res = Inl e"
proof -
  from ret obtain p where p: "putFileContents srv (client wc) path (file_bytes file) w = Some p"
    and after: "(case fst p of
               Inl e \<Rightarrow> Some (Inl e, snd p)
             | Inr success \<Rightarrow>
                 if success \<noteq> JsTrue
                 then Some (Inl (uploadFailed (file_name file)), snd p)
                 else (case getUrl (settings wc) path of
                         Inl e \<Rightarrow> Some (Inl e, snd p)
                       | Inr u \<Rightarrow> Some (Inr \<lparr>fileName = file_name file, fileUrl = u\<rparr>, snd p)))
              = Some (res, w')"
    unfolding uploadFile_def by (auto simp: Option.bind_eq_Some_conv)
  show ?thesis
  proof (cases "fst p")
    case (Inl e)
    with after show ?thesis by auto
  next
    case (Inr success)
    then have "putFileContents srv (client wc) path (file_bytes file) w = Some (Inr success, snd p)"
      using p by (cases p) simp
    from putFileContents_after_409 [OF r st this] have "success = JsUndefined" .
    with after Inr show ?thesis by auto
  qed
qed

section \<open>The retries of \<open>putFileContents\<close> and \<open>moveFile\<close>\<close>

subsection \<open>One round, on any server\<close>

lemma request_delivered:
  "request srv c u m hs b w
     = (case fst (srv (server_state w) (requestOptions c u m hs b)) of
          Inl e \<Rightarrow> Inl e | Inr response \<Rightarrow> Inr response,
        delivered srv (requestOptions c u m hs b) w)"
  by (simp add: request_def requestUrl_def delivered_def Let_def split: sum.splits)

lemma putFileContents_no_response:
  "fst (srv (server_state w) (put_request c path data)) = Inl e
   \<longrightarrow> putFileContents srv c path data w = Some (Inl e, delivered srv (put_request c path data) w)"
  by (subst putFileContents.simps) (simp add: request_delivered put_request_def)

lemma putFileContents_no_retry:
  "fst (srv (server_state w) (put_request c path data)) = Inr response \<and> status response \<noteq> 409
   \<longrightarrow> putFileContents srv c path data w
         = Some (case handleResponseCode response of Inl e \<Rightarrow> Inl e | Inr u \<Rightarrow> Inr JsTrue,
                 delivered srv (put_request c path data) w)"
  by (subst putFileContents.simps)
     (simp add: request_delivered put_request_def split: sum.splits)

lemma putFileContents_pass_raises:
  "fst (srv (server_state w) (put_request c path data)) = Inr response \<and> status response = 409
   \<and> ensureDirectoryExists srv c (parent_directory path)
         (delivered srv (put_request c path data) w) = (Inl e, w2)
   \<longrightarrow> putFileContents srv c path data w = Some (Inl e, w2)"
  by (subst putFileContents.simps)
     (simp add: request_delivered put_request_def parent_directory_def)

lemma putFileContents_again:
  "fst (srv (server_state w) (put_request c path data)) = Inr response \<and> status response = 409
   \<and> ensureDirectoryExists srv c (parent_directory path)
         (delivered srv (put_request c path data) w) = (Inr (), w2)
   \<longrightarrow> putFileContents srv c path data w
         = map_option (\<lambda>res. (case fst res of Inl e \<Rightarrow> Inl e | Inr v \<Rightarrow> Inr JsUndefined, snd res))
             (putFileContents srv c path data w2)"
proof
  assume a: "fst (srv (server_state w) (put_request c path data)) = Inr response \<and> status response = 409
   \<and> ensureDirectoryExists srv c (parent_directory path)
         (delivered srv (put_request c path data) w) = (Inr (), w2)"
  have "putFileContents srv c path data w
      = Option.bind (putFileContents srv c path data w2)
          (\<lambda>inner. case fst inner of
                               Inl e \<Rightarrow> Some (Inl e, snd inner)
                             | Inr _ \<Rightarrow> Some (Inr JsUndefined, snd inner))"
    using a
    by (subst putFileContents.simps)
       (simp add: request_delivered put_request_def parent_directory_def)
  also have "\<dots> = map_option (\<lambda>res. (case fst res of Inl e \<Rightarrow> Inl e | Inr v \<Rightarrow> Inr JsUndefined, snd res))
             (putFileContents srv c path data w2)"
    by (cases "putFileContents srv c path data w2") (auto split: sum.splits)
  finally show "putFileContents srv c path data w
         = map_option (\<lambda>res. (case fst res of Inl e \<Rightarrow> Inl e | Inr v \<Rightarrow> Inr JsUndefined, snd res))
             (putFileContents srv c path data w2)" .
qed

lemma ensureDirectories_sent:
  "(\<exists>j. sent (snd (ensureDirectories srv c cur dirs w))
          = sent w @ take j (map (mkcol_request c) (currentPaths cur dirs)))
   \<and> (fst (ensureDirectories srv c cur dirs w) = Inr ()
        \<longrightarrow> sent (snd (ensureDirectories srv c cur dirs w))
              = sent w @ map (mkcol_request c) (currentPaths cur dirs))"
proof (induction dirs arbitrary: cur w)
  case Nil
  show ?case by simp
next
  case (Cons dir dirs)
  let ?p = "cur @ ''/'' @ dir"
  let ?w1 = "delivered srv (mkcol_request c ?p) w"
  have cd: "createDirectory srv c ?p w
      = (case fst (srv (server_state w) (mkcol_request c ?p)) of
          Inl e \<Rightarrow> Inl e | Inr response \<Rightarrow> Inr response, ?w1)"
    by (simp add: createDirectory_def request_delivered mkcol_request_def)
  have s1: "sent ?w1 = sent w @ [mkcol_request c ?p]"
    by (simp add: delivered_def)
  from Cons.IH [of ?p ?w1] obtain j where
    j: "sent (snd (ensureDirectories srv c ?p dirs ?w1))
          = sent ?w1 @ take j (map (mkcol_request c) (currentPaths ?p dirs))"
    and full: "fst (ensureDirectories srv c ?p dirs ?w1) = Inr ()
        \<longrightarrow> sent (snd (ensureDirectories srv c ?p dirs ?w1))
              = sent ?w1 @ map (mkcol_request c) (currentPaths ?p dirs)"
    by blast
  have stop_or_go: "ensureDirectories srv c cur (dir # dirs) w = ensureDirectories srv c ?p dirs ?w1
      \<or> (\<exists>e. ensureDirectories srv c cur (dir # dirs) w = (Inl e, ?w1))"
    using cd by (auto split: sum.splits)
  then show ?case
  proof
    assume go: "ensureDirectories srv c cur (dir # dirs) w = ensureDirectories srv c ?p dirs ?w1"
    have "sent (snd (ensureDirectories srv c cur (dir # dirs) w))
          = sent w @ take (Suc j) (map (mkcol_request c) (currentPaths cur (dir # dirs)))"
      unfolding go using j s1 by simp
    moreover have "fst (ensureDirectories srv c cur (dir # dirs) w) = Inr ()
        \<longrightarrow> sent (snd (ensureDirectories srv c cur (dir # dirs) w))
              = sent w @ map (mkcol_request c) (currentPaths cur (dir # dirs))"
      unfolding go using full s1 by simp
    ultimately show ?thesis by blast
  next
    assume "\<exists>e. ensureDirectories srv c cur (dir # dirs) w = (Inl e, ?w1)"
    then obtain e where stop: "ensureDirectories srv c cur (dir # dirs) w = (Inl e, ?w1)" by blast
    have "sent (snd (ensureDirectories srv c cur (dir # dirs) w))
          = sent w @ take (Suc 0) (map (mkcol_request c) (currentPaths cur (dir # dirs)))"
      unfolding stop using s1 by simp
    moreover have "fst (ensureDirectories srv c cur (dir # dirs) w) \<noteq> Inr ()"
      unfolding stop by simp
    ultimately show ?thesis by blast
  qed
qed

lemma ensureDirectoryExists_sent:
  "(\<exists>j. sent (snd (ensureDirectoryExists srv c dir w)) = sent w @ take j (directory_pass c dir))
   \<and> (fst (ensureDirectoryExists srv c dir w) = Inr ()
        \<longrightarrow> sent (snd (ensureDirectoryExists srv c dir w)) = sent w @ directory_pass c dir)"
  unfolding ensureDirectoryExists_def directory_pass_def by (rule ensureDirectories_sent)

lemma moveFile_checked:
  assumes "overwrite \<and> w1 = w \<or> \<not> overwrite \<and> exists srv c newPath w = (Inr False, w1)"
  shows "moveFile srv c oldPath newPath overwrite w
     = (case fst (srv (server_state w1) (move_request c oldPath newPath overwrite)) of
          Inl e \<Rightarrow> Some (Inl e, delivered srv (move_request c oldPath newPath overwrite) w1)
        | Inr response \<Rightarrow>
            if status response \<in> {404, 409, 500} then
              (case ensureDirectoryExists srv c (parent_directory newPath)
                      (delivered srv (move_request c oldPath newPath overwrite) w1) of
                 (Inl e, w3) \<Rightarrow> Some (Inl e, w3)
               | (Inr u, w3) \<Rightarrow> moveFile srv c oldPath newPath overwrite w3)
            else if status response = 412 then
              Some (Inl (destinationExists newPath),
                    delivered srv (move_request c oldPath newPath overwrite) w1)
            else Some (handleResponseCode response,
                       delivered srv (move_request c oldPath newPath overwrite) w1))"
proof (cases overwrite)
  case True
  with assms have "w1 = w" by simp
  with True show ?thesis
    by (subst moveFile.simps)
       (simp add: request_delivered move_request_def parent_directory_def split: sum.splits)
next
  case False
  with assms have "exists srv c newPath w = (Inr False, w1)" by simp
  with False show ?thesis
    by (subst moveFile.simps)
       (simp add: request_delivered move_request_def parent_directory_def split: sum.splits)
qed

lemma moveFile_no_response:
  "(overwrite \<and> w1 = w \<or> \<not> overwrite \<and> exists srv c newPath w = (Inr False, w1))
   \<and> fst (srv (server_state w1) (move_request c oldPath newPath overwrite)) = Inl e
   \<longrightarrow> moveFile srv c oldPath newPath overwrite w
         = Some (Inl e, delivered srv (move_request c oldPath newPath overwrite) w1)"
proof (intro impI, elim conjE)
  assume chk: "overwrite \<and> w1 = w \<or> \<not> overwrite \<and> exists srv c newPath w = (Inr False, w1)"
  assume "fst (srv (server_state w1) (move_request c oldPath newPath overwrite)) = Inl e"
  then show "moveFile srv c oldPath newPath overwrite w
         = Some (Inl e, delivered srv (move_request c oldPath newPath overwrite) w1)"
    unfolding moveFile_checked [OF chk] by simp
qed

lemma moveFile_no_retry:
  "(overwrite \<and> w1 = w \<or> \<not> overwrite \<and> exists srv c newPath w = (Inr False, w1))
   \<and> fst (srv (server_state w1) (move_request c oldPath newPath overwrite)) = Inr response
   \<and> status response \<notin> {404, 409, 500}
   \<longrightarrow> moveFile srv c oldPath newPath overwrite w
         = Some (if status response = 412 then Inl (destinationExists newPath)
                 else handleResponseCode response,
                 delivered srv (move_request c oldPath newPath overwrite) w1)"
proof (intro impI, elim conjE)
  assume chk: "overwrite \<and> w1 = w \<or> \<not> overwrite \<and> exists srv c newPath w = (Inr False, w1)"
  assume "fst (srv (server_state w1) (move_request c oldPath newPath overwrite)) = Inr response"
    and "status response \<notin> {404, 409, 500}"
  then show "moveFile srv c oldPath newPath overwrite w
         = Some (if status response = 412 then Inl (destinationExists newPath)
                 else handleResponseCode response,
                 delivered srv (move_request c oldPath newPath overwrite) w1)"
    unfolding moveFile_checked [OF chk] by simp
qed

lemma moveFile_pass_raises:
  "(overwrite \<and> w1 = w \<or> \<not> overwrite \<and> exists srv c newPath w = (Inr False, w1))
   \<and> fst (srv (server_state w1) (move_request c oldPath newPath overwrite)) = Inr response
   \<and> status response \<in> {404, 409, 500}
   \<and> ensureDirectoryExists srv c (parent_directory newPath)
         (delivered srv (move_request c oldPath newPath overwrite) w1) = (Inl e, w3)
   \<longrightarrow> moveFile srv c oldPath newPath overwrite w = Some (Inl e, w3)"
proof (intro impI, elim conjE)
  assume chk: "overwrite \<and> w1 = w \<or> \<not> overwrite \<and> exists srv c newPath w = (Inr False, w1)"
  assume "fst (srv (server_state w1) (move_request c oldPath newPath overwrite)) = Inr response"
    and "status response \<in> {404, 409, 500}"
    and "ensureDirectoryExists srv c (parent_directory newPath)
         (delivered srv (move_request c oldPath newPath overwrite) w1) = (Inl e, w3)"
  then show "moveFile srv c oldPath newPath overwrite w = Some (Inl e, w3)"
    unfolding moveFile_checked [OF chk] by simp
qed

lemma moveFile_again:
  "(overwrite \<and> w1 = w \<or> \<not> overwrite \<and> exists srv c newPath w = (Inr False, w1))
   \<and> fst (srv (server_state w1) (move_request c oldPath newPath overwrite)) = Inr response
   \<and> status response \<in> {404, 409, 500}
   \<and> ensureDirectoryExists srv c (parent_directory newPath)
         (delivered srv (move_request c oldPath newPath overwrite) w1) = (Inr (), w3)
   \<longrightarrow> moveFile srv c oldPath newPath overwrite w = moveFile srv c oldPath newPath overwrite w3"
proof (intro impI, elim conjE)
  assume chk: "overwrite \<and> w1 = w \<or> \<not> overwrite \<and> exists srv c newPath w = (Inr False, w1)"
  assume "fst (srv (server_state w1) (move_request c oldPath newPath overwrite)) = Inr response"
    and "status response \<in> {404, 409, 500}"
    and "ensureDirectoryExists srv c (parent_directory newPath)
         (delivered srv (move_request c oldPath newPath overwrite) w1) = (Inr (), w3)"
  then show "moveFile srv c oldPath newPath overwrite w = moveFile srv c oldPath newPath overwrite w3"
    unfolding moveFile_checked [OF chk] by simp
qed

subsection \<open>A server that refuses \<open>k\<close> times\<close>

lemma delivered_refusing:
  "delivered (refusing_server verb st) r \<lparr>server_state = n, sent = xs\<rparr>
     = \<lparr>server_state = (if req_method r = verb then n - 1 else n), sent = xs @ [r]\<rparr>"
  by (simp add: delivered_def refusing_server_def)

lemma answer_refusing:
  "fst (refusing_server verb st n r) = answer (if req_method r = verb \<and> n > 0 then st else 201)"
  by (simp add: refusing_server_def)

lemma request_method [simp]:
  "req_method (put_request c path data) = ''PUT''"
  "req_method (move_request c oldPath newPath overwrite) = ''MOVE''"
  "req_method (head_request c path) = ''HEAD''"
  "req_method (mkcol_request c path) = ''MKCOL''"
  by (simp_all add: put_request_def move_request_def head_request_def mkcol_request_def)

lemma ensureDirectories_refusing:
  assumes "verb \<noteq> ''MKCOL''"
  shows "ensureDirectories (refusing_server verb st) c cur dirs \<lparr>server_state = n, sent = xs\<rparr>
          = (Inr (), \<lparr>server_state = n,
                sent = xs @ map (mkcol_request c) (currentPaths cur dirs)\<rparr>)"
proof (induction dirs arbitrary: cur xs)
  case Nil
  show ?case by simp
next
  case (Cons dir dirs)
  have cd: "createDirectory (refusing_server verb st) c (cur @ ''/'' @ dir)
              \<lparr>server_state = n, sent = xs\<rparr>
      = (answer 201, \<lparr>server_state = n, sent = xs @ [mkcol_request c (cur @ ''/'' @ dir)]\<rparr>)"
    using assms
    by (simp add: createDirectory_def request_delivered answer_refusing delivered_refusing
        mkcol_request_def [symmetric] answer_def)
  show ?case
    using cd Cons.IH [of "cur @ ''/'' @ dir" "xs @ [mkcol_request c (cur @ ''/'' @ dir)]"]
    by (simp add: answer_def handleResponseCode_def)
qed

lemma ensureDirectoryExists_refusing:
  "verb \<noteq> ''MKCOL'' \<Longrightarrow>
   ensureDirectoryExists (refusing_server verb st) c dir \<lparr>server_state = n, sent = xs\<rparr>
     = (Inr (), \<lparr>server_state = n, sent = xs @ directory_pass c dir\<rparr>)"
  unfolding ensureDirectoryExists_def directory_pass_def by (rule ensureDirectories_refusing)

lemma putFileContents_refusing:
  "putFileContents (refusing_server ''PUT'' 409) c path data \<lparr>server_state = k, sent = xs\<rparr>
     = Some (Inr (if k = 0 then JsTrue else JsUndefined),
             \<lparr>server_state = 0,
              sent = xs @ concat (replicate k (put_request c path data
                                                # directory_pass c (parent_directory path)))
                        @ [put_request c path data]\<rparr>)"
proof (induction k arbitrary: xs)
  case 0
  have "fst (refusing_server ''PUT'' 409 (server_state \<lparr>server_state = 0, sent = xs\<rparr>)
               (put_request c path data))
          = Inr \<lparr>status = 201, resp_text = None, arrayBuffer = []\<rparr>"
    by (simp add: answer_refusing answer_def)
  with putFileContents_no_retry [of "refusing_server ''PUT'' 409" "\<lparr>server_state = 0, sent = xs\<rparr>"
      c path data "\<lparr>status = 201, resp_text = None, arrayBuffer = []\<rparr>"]
  show ?case
    by (simp add: delivered_refusing handleResponseCode_def)
next
  case (Suc k)
  let ?put = "put_request c path data"
  let ?pass = "directory_pass c (parent_directory path)"
  have a: "fst (refusing_server ''PUT'' 409 (server_state \<lparr>server_state = Suc k, sent = xs\<rparr>) ?put)
          = Inr \<lparr>status = 409, resp_text = None, arrayBuffer = []\<rparr>"
    by (simp add: answer_refusing answer_def)
  have e: "ensureDirectoryExists (refusing_server ''PUT'' 409) c (parent_directory path)
             (delivered (refusing_server ''PUT'' 409) ?put \<lparr>server_state = Suc k, sent = xs\<rparr>)
         = (Inr (), \<lparr>server_state = k, sent = (xs @ [?put]) @ ?pass\<rparr>)"
    by (simp add: delivered_refusing ensureDirectoryExists_refusing)
  from putFileContents_again [of "refusing_server ''PUT'' 409" "\<lparr>server_state = Suc k, sent = xs\<rparr>"
      c path data "\<lparr>status = 409, resp_text = None, arrayBuffer = []\<rparr>"
      "\<lparr>server_state = k, sent = (xs @ [?put]) @ ?pass\<rparr>"] a e
  have "putFileContents (refusing_server ''PUT'' 409) c path data \<lparr>server_state = Suc k, sent = xs\<rparr>
      = map_option (\<lambda>res. (case fst res of Inl e \<Rightarrow> Inl e | Inr v \<Rightarrow> Inr JsUndefined, snd res))
          (putFileContents (refusing_server ''PUT'' 409) c path data
             \<lparr>server_state = k, sent = (xs @ [?put]) @ ?pass\<rparr>)"
    by simp
  then show ?case
    unfolding Suc.IH by simp
qed

lemma exists_refusing:
  "exists (refusing_server ''MOVE'' st) c p \<lparr>server_state = n, sent = xs\<rparr>
     = (Inr False, \<lparr>server_state = n, sent = xs @ [head_request c p]\<rparr>)"
  by (simp add: exists_def request_delivered answer_refusing delivered_refusing
      head_request_def [symmetric] answer_def handleResponseCode_def)

lemma moveFile_refusing:
  assumes st: "st \<in> {404, 409, 500}"
  shows "moveFile (refusing_server ''MOVE'' st) c oldPath newPath overwrite
           \<lparr>server_state = k, sent = xs\<rparr>
     = Some (Inr (),
             \<lparr>server_state = 0,
              sent = xs @ concat (replicate k
                          ((if overwrite then [] else [head_request c newPath])
                           @ move_request c oldPath newPath overwrite
                             # directory_pass c (parent_directory newPath)))
                        @ (if overwrite then [] else [head_request c newPath])
                        @ [move_request c oldPath newPath overwrite]\<rparr>)"
proof (induction k arbitrary: xs)
  case 0
  let ?w1 = "\<lparr>server_state = 0::nat,
              sent = xs @ (if overwrite then [] else [head_request c newPath])\<rparr>"
  have chk: "overwrite \<and> ?w1 = \<lparr>server_state = 0, sent = xs\<rparr>
      \<or> \<not> overwrite \<and> exists (refusing_server ''MOVE'' st) c newPath \<lparr>server_state = 0, sent = xs\<rparr>
          = (Inr False, ?w1)"
    by (simp add: exists_refusing)
  show ?case
    unfolding moveFile_checked [OF chk]
    by (simp add: answer_refusing answer_def delivered_refusing handleResponseCode_def)
next
  case (Suc k)
  let ?w1 = "\<lparr>server_state = Suc k,
              sent = xs @ (if overwrite then [] else [head_request c newPath])\<rparr>"
  have chk: "overwrite \<and> ?w1 = \<lparr>server_state = Suc k, sent = xs\<rparr>
      \<or> \<not> overwrite \<and> exists (refusing_server ''MOVE'' st) c newPath \<lparr>server_state = Suc k, sent = xs\<rparr>
          = (Inr False, ?w1)"
    by (simp add: exists_refusing)
  show ?case
    unfolding moveFile_checked [OF chk]
    using st
    by (auto simp: answer_refusing answer_def delivered_refusing ensureDirectoryExists_refusing
        Suc.IH)
qed

subsection \<open>A server that never gives in\<close>

lemma ensureDirectories_stubborn:
  "verb \<noteq> ''MKCOL'' \<Longrightarrow> fst (ensureDirectories (stubborn_server verb st) c cur dirs w) = Inr ()"
proof (induction dirs arbitrary: cur w)
  case Nil
  show ?case by simp
next
  case (Cons dir dirs)
  have "createDirectory (stubborn_server verb st) c (cur @ ''/'' @ dir) w
      = (answer 201, \<lparr>server_state = (),
           sent = sent w @ [requestOptions c (buildUrl c (encodePath (cur @ ''/'' @ dir))) ''MKCOL'' [] None]\<rparr>)"
    using Cons.prems
    by (simp add: createDirectory_def request_def requestUrl_def stubborn_server_def answer_def Let_def)
  then show ?case
    using Cons.IH [OF Cons.prems] by (simp add: answer_def handleResponseCode_def)
qed

lemma putFileContents_stubborn:
  "putFileContents (stubborn_server ''PUT'' 409) c path data w = None"
proof (rule ccontr)
  assume "putFileContents (stubborn_server ''PUT'' 409) c path data w \<noteq> None"
  then obtain y where y: "putFileContents (stubborn_server ''PUT'' 409) c path data w = Some y"
    by blast
  have "srv \<noteq> stubborn_server ''PUT'' 409"
    if h: "putFileContents srv c path data w = Some y" for srv c path data w y
  proof (rule putFileContents.raw_induct
      [where P = "\<lambda>srv c path data w y. srv \<noteq> stubborn_server ''PUT'' 409", OF _ h], goal_cases)
    case (1 f srv c path data w y)
    show ?case
    proof
      assume s: "srv = stubborn_server ''PUT'' 409"
      let ?w1 = "\<lparr>server_state = (), sent = sent w @ [requestOptions c (buildUrl c (encodePath path))
                    ''PUT'' [(''Content-Type'', ''application/octet-stream'')] (Some data)]\<rparr>"
      have r: "request (stubborn_server ''PUT'' 409) c (buildUrl c (encodePath path)) ''PUT''
             [(''Content-Type'', ''application/octet-stream'')] (Some data) w = (answer 409, ?w1)"
        by (simp add: request_def requestUrl_def stubborn_server_def answer_def Let_def)
      obtain w2 where e: "ensureDirectoryExists (stubborn_server ''PUT'' 409) c
             (substring0 path (lastIndexOf path CHR ''/'')) ?w1 = (Inr (), w2)"
      proof -
        have "fst (ensureDirectoryExists (stubborn_server ''PUT'' 409) c
             (substring0 path (lastIndexOf path CHR ''/'')) ?w1) = Inr ()"
          unfolding ensureDirectoryExists_def by (rule ensureDirectories_stubborn) simp
        then show ?thesis
          using that by (cases "ensureDirectoryExists (stubborn_server ''PUT'' 409) c
             (substring0 path (lastIndexOf path CHR ''/'')) ?w1") simp
      qed
      from 1(2) have "\<exists>z. f (stubborn_server ''PUT'' 409) c path data w2 = Some z"
        unfolding s by (auto simp: r e answer_def Option.bind_eq_Some_conv)
      then obtain z where "f (stubborn_server ''PUT'' 409) c path data w2 = Some z" by blast
      from 1(1) [OF this] show False by simp
    qed
  qed
  from this [OF y] show False by simp
qed

lemma moveFile_stubborn:
  assumes st: "st \<in> {404, 409, 500}"
  shows "moveFile (stubborn_server ''MOVE'' st) c oldPath newPath overwrite w = None"
proof (rule ccontr)
  assume "moveFile (stubborn_server ''MOVE'' st) c oldPath newPath overwrite w \<noteq> None"
  then obtain y where y: "moveFile (stubborn_server ''MOVE'' st) c oldPath newPath overwrite w = Some y"
    by blast
  have "srv \<noteq> stubborn_server ''MOVE'' st"
    if h: "moveFile srv c oldPath newPath overwrite w = Some y" for srv c oldPath newPath overwrite w y
  proof (rule moveFile.raw_induct
      [where P = "\<lambda>srv c oldPath newPath overwrite w y. srv \<noteq> stubborn_server ''MOVE'' st", OF _ h],
      goal_cases)
    case (1 f srv c oldPath newPath overwrite w y)
    show ?case
    proof
      assume s: "srv = stubborn_server ''MOVE'' st"
      let ?hs = "[(''Destination'', buildUrl c (encodePath newPath)),
                  (''Overwrite'', if overwrite then ''T'' else ''F'')]"
      let ?w0 = "if overwrite then w
                 else \<lparr>server_state = (), sent = sent w @ [requestOptions c (buildUrl c (encodePath newPath))
                    ''HEAD'' [] None]\<rparr>"
      let ?w1 = "\<lparr>server_state = (), sent = sent ?w0 @ [requestOptions c (buildUrl c (encodePath oldPath))
                    ''MOVE'' ?hs None]\<rparr>"
      have x: "exists (stubborn_server ''MOVE'' st) c newPath w
           = (Inr False, \<lparr>server_state = (), sent = sent w @ [requestOptions c (buildUrl c (encodePath newPath))
                    ''HEAD'' [] None]\<rparr>)"
        by (simp add: exists_def request_def requestUrl_def stubborn_server_def answer_def Let_def
            handleResponseCode_def)
      have r: "request (stubborn_server ''MOVE'' st) c (buildUrl c (encodePath oldPath)) ''MOVE''
             ?hs None ?w0 = (answer st, ?w1)"
        by (simp add: request_def requestUrl_def stubborn_server_def answer_def Let_def)
      obtain w2 where e: "ensureDirectoryExists (stubborn_server ''MOVE'' st) c
             (substring0 newPath (lastIndexOf newPath CHR ''/'')) ?w1 = (Inr (), w2)"
      proof -
        have "fst (ensureDirectoryExists (stubborn_server ''MOVE'' st) c
             (substring0 newPath (lastIndexOf newPath CHR ''/'')) ?w1) = Inr ()"
          unfolding ensureDirectoryExists_def by (rule ensureDirectories_stubborn) simp
        then show ?thesis
          using that by (cases "ensureDirectoryExists (stubborn_server ''MOVE'' st) c
             (substring0 newPath (lastIndexOf newPath CHR ''/'')) ?w1") simp
      qed
      have "f (stubborn_server ''MOVE'' st) c oldPath newPath overwrite w2 = Some y"
      proof (cases overwrite)
        case True
        with 1(2) r e st show ?thesis unfolding s by (auto simp: answer_def)
      next
        case False
        with 1(2) r e st x show ?thesis unfolding s by (auto simp: answer_def)
      qed
      from 1(1) [OF this] show False by simp
    qed
  qed
  from this [OF y] show False by simp
qed

text \<open>
  Claim C4, amended. The recovery is not bounded to one retry. On any server,
  \<open>putFileContents\<close> issues the PUT once and ends there when no response arrives or the status
  is not 409. On a 409 it runs one directory pass over the parent path: when the pass raises,
  that error is raised and the PUT is not issued again; when the pass succeeds, the operation
  runs again in full on the network as it then stands, and a value it returns is replaced by
  \<open>undefined\<close>. \<open>moveFile\<close>, once its upfront check has let it go on, does the same with the
  MOVE on a 404, 409 or 500, and its running again includes the check. A directory pass sends
  MKCOL requests for the cumulative prefixes of the path, in their order, and all of them when
  it does not raise. Nothing bounds the number of rounds: on the server that answers the first
  \<open>k\<close> PUT requests with 409 (the first \<open>k\<close> MOVE requests with 404, 409 or 500) and every
  other request with 201, the operation returns after exactly \<open>k + 1\<close> issues of the verb, each
  of the first \<open>k\<close> followed by a complete directory pass; and on the server that answers every
  PUT (every MOVE) with that status and every other request with 201, the operation never
  returns.
\<close>

theorem retry_once_per_refusal:
  "(fst (srv (server_state w) (put_request c path data)) = Inl e
     \<longrightarrow> putFileContents srv c path data w
           = Some (Inl e, delivered srv (put_request c path data) w))
   \<and> (fst (srv (server_state w) (put_request c path data)) = Inr response \<and> status response \<noteq> 409
     \<longrightarrow> putFileContents srv c path data w
           = Some (case handleResponseCode response of Inl e \<Rightarrow> Inl e | Inr u \<Rightarrow> Inr JsTrue,
                   delivered srv (put_request c path data) w))
   \<and> (fst (srv (server_state w) (put_request c path data)) = Inr response \<and> status response = 409
       \<and> ensureDirectoryExists srv c (parent_directory path)
             (delivered srv (put_request c path data) w) = (Inl e, wput)
     \<longrightarrow> putFileContents srv c path data w = Some (Inl e, wput))
   \<and> (fst (srv (server_state w) (put_request c path data)) = Inr response \<and> status response = 409
       \<and> ensureDirectoryExists srv c (parent_directory path)
             (delivered srv (put_request c path data) w) = (Inr (), wput)
     \<longrightarrow> putFileContents srv c path data w
           = map_option (\<lambda>res. (case fst res of Inl e \<Rightarrow> Inl e | Inr v \<Rightarrow> Inr JsUndefined, snd res))
               (putFileContents srv c path data wput))
   \<and> ((overwrite \<and> wchk = w \<or> \<not> overwrite \<and> exists srv c newPath w = (Inr False, wchk))
       \<and> fst (srv (server_state wchk) (move_request c oldPath newPath overwrite)) = Inl e
     \<longrightarrow> moveFile srv c oldPath newPath overwrite w
           = Some (Inl e, delivered srv (move_request c oldPath newPath overwrite) wchk))
   \<and> ((overwrite \<and> wchk = w \<or> \<not> overwrite \<and> exists srv c newPath w = (Inr False, wchk))
       \<and> fst (srv (server_state wchk) (move_request c oldPath newPath overwrite)) = Inr response
       \<and> status response \<notin> {404, 409, 500}
     \<longrightarrow> moveFile srv c oldPath newPath overwrite w
           = Some (if status response = 412 then Inl (destinationExists newPath)
                   else handleResponseCode response,
                   delivered srv (move_request c oldPath newPath overwrite) wchk))
   \<and> ((overwrite \<and> wchk = w \<or> \<not> overwrite \<and> exists srv c newPath w = (Inr False, wchk))
       \<and> fst (srv (server_state wchk) (move_request c oldPath newPath overwrite)) = Inr response
       \<and> status response \<in> {404, 409, 500}
       \<and> ensureDirectoryExists srv c (parent_directory newPath)
             (delivered srv (move_request c oldPath newPath overwrite) wchk) = (Inl e, wmove)
     \<longrightarrow> moveFile srv c oldPath newPath overwrite w = Some (Inl e, wmove))
   \<and> ((overwrite \<and> wchk = w \<or> \<not> overwrite \<and> exists srv c newPath w = (Inr False, wchk))
       \<and> fst (srv (server_state wchk) (move_request c oldPath newPath overwrite)) = Inr response
       \<and> status response \<in> {404, 409, 500}
       \<and> ensureDirectoryExists srv c (parent_directory newPath)
             (delivered srv (move_request c oldPath newPath overwrite) wchk) = (Inr (), wmove)
     \<longrightarrow> moveFile srv c oldPath newPath overwrite w = moveFile srv c oldPath newPath overwrite wmove)
   \<and> (\<exists>j. sent (snd (ensureDirectoryExists srv c dir w)) = sent w @ take j (directory_pass c dir))
   \<and> (fst (ensureDirectoryExists srv c dir w) = Inr ()
     \<longrightarrow> sent (snd (ensureDirectoryExists srv c dir w)) = sent w @ directory_pass c dir)
   \<and> putFileContents (refusing_server ''PUT'' 409) c path data \<lparr>server_state = k, sent = xs\<rparr>
       = Some (Inr (if k = 0 then JsTrue else JsUndefined),
               \<lparr>server_state = 0,
                sent = xs @ concat (replicate k (put_request c path data
                                                  # directory_pass c (parent_directory path)))
                          @ [put_request c path data]\<rparr>)
   \<and> (st \<in> {404, 409, 500}
     \<longrightarrow> moveFile (refusing_server ''MOVE'' st) c oldPath newPath overwrite
             \<lparr>server_state = k, sent = xs\<rparr>
           = Some (Inr (),
                   \<lparr>server_state = 0,
                    sent = xs @ concat (replicate k
                                ((if overwrite then [] else [head_request c newPath])
                                 @ move_request c oldPath newPath overwrite
                                   # directory_pass c (parent_directory newPath)))
                              @ (if overwrite then [] else [head_request c newPath])
                              @ [move_request c oldPath newPath overwrite]\<rparr>))
   \<and> putFileContents (stubborn_server ''PUT'' 409) c path data v = None
   \<and> (st \<in> {404, 409, 500}
     \<longrightarrow> moveFile (stubborn_server ''MOVE'' st) c oldPath newPath overwrite v = None)"
proof (intro conjI)
  show "\<exists>j. sent (snd (ensureDirectoryExists srv c dir w)) = sent w @ take j (directory_pass c dir)"
    using ensureDirectoryExists_sent [of srv c dir w] by blast
  show "fst (ensureDirectoryExists srv c dir w) = Inr ()
     \<longrightarrow> sent (snd (ensureDirectoryExists srv c dir w)) = sent w @ directory_pass c dir"
    using ensureDirectoryExists_sent [of srv c dir w] by blast
  show "st \<in> {404, 409, 500}
     \<longrightarrow> moveFile (stubborn_server ''MOVE'' st) c oldPath newPath overwrite v = None"
    using moveFile_stubborn [of st c oldPath newPath overwrite v] by blast
  show "st \<in> {404, 409, 500}
     \<longrightarrow> moveFile (refusing_server ''MOVE'' st) c oldPath newPath overwrite
             \<lparr>server_state = k, sent = xs\<rparr>
           = Some (Inr (),
                   \<lparr>server_state = 0,
                    sent = xs @ concat (replicate k
                                ((if overwrite then [] else [head_request c newPath])
                                 @ move_request c oldPath newPath overwrite
                                   # directory_pass c (parent_directory newPath)))
                              @ (if overwrite then [] else [head_request c newPath])
                              @ [move_request c oldPath newPath overwrite]\<rparr>)"
    using moveFile_refusing [of st c oldPath newPath overwrite k xs] by blast
qed (rule putFileContents_no_response putFileContents_no_retry putFileContents_pass_raises
      putFileContents_again moveFile_no_response moveFile_no_retry moveFile_pass_raises
      moveFile_again putFileContents_refusing putFileContents_stubborn)+

lemma example_directory_pass:
  "parent_directory ''/notes/img.png'' = ''/notes''"
  "directory_pass example_client ''/notes'' = [mkcol_request example_client ''/notes'']"
  by (simp_all add: parent_directory_def substring0_def directory_pass_def)

text \<open>
  No refusal: one PUT. Two refusals: three PUT requests with a MKCOL after each of the first
  two. One refusal of the MOVE: HEAD, MOVE, MKCOL, HEAD, MOVE. And the two servers that never
  give in.
\<close>

theorem retry_once_per_refusal_witness:
  "putFileContents (constant_server 201) example_client ''/notes/img.png'' ''x'' (start ())
     = Some (Inr JsTrue,
             \<lparr>server_state = (), sent = [put_request example_client ''/notes/img.png'' ''x'']\<rparr>)
   \<and> putFileContents (refusing_server ''PUT'' 409) example_client ''/notes/img.png'' ''x'' (start 2)
     = Some (Inr JsUndefined,
             \<lparr>server_state = 0,
              sent = [put_request example_client ''/notes/img.png'' ''x'',
                      mkcol_request example_client ''/notes'',
                      put_request example_client ''/notes/img.png'' ''x'',
                      mkcol_request example_client ''/notes'',
                      put_request example_client ''/notes/img.png'' ''x'']\<rparr>)
   \<and> moveFile (refusing_server ''MOVE'' 500) example_client ''/a.png'' ''/notes/img.png'' False
       (start 1)
     = Some (Inr (),
             \<lparr>server_state = 0,
              sent = [head_request example_client ''/notes/img.png'',
                      move_request example_client ''/a.png'' ''/notes/img.png'' False,
                      mkcol_request example_client ''/notes'',
                      head_request example_client ''/notes/img.png'',
                      move_request example_client ''/a.png'' ''/notes/img.png'' False]\<rparr>)
   \<and> putFileContents (stubborn_server ''PUT'' 409) example_client ''/notes/img.png'' ''x'' (start ())
       = None
   \<and> moveFile (stubborn_server ''MOVE'' 500) example_client ''/a.png'' ''/notes/img.png'' False (start ())
       = None"
proof -
  have one: "putFileContents (constant_server 201) example_client ''/notes/img.png'' ''x'' (start ())
     = Some (Inr JsTrue,
             \<lparr>server_state = (), sent = [put_request example_client ''/notes/img.png'' ''x'']\<rparr>)"
    using retry_once_per_refusal [where srv = "constant_server 201" and w = "start ()"
        and c = example_client and path = "''/notes/img.png''" and data = "''x''"
        and response = "\<lparr>status = 201, resp_text = None, arrayBuffer = []\<rparr>"
        and k = 0 and xs = "[]" and st = 500 and v = "start ()" and overwrite = False
        and oldPath = "''/a.png''" and newPath = "''/notes/img.png''" and dir = "''/notes''"
        and wchk = "start ()" and wput = "start ()" and wmove = "start ()" and e = "Error []"]
    by (simp add: constant_server_def answer_def handleResponseCode_def delivered_def start_def)
  have rest: "putFileContents (refusing_server ''PUT'' 409) example_client ''/notes/img.png'' ''x'' (start 2)
     = Some (Inr JsUndefined,
             \<lparr>server_state = 0,
              sent = [put_request example_client ''/notes/img.png'' ''x'',
                      mkcol_request example_client ''/notes'',
                      put_request example_client ''/notes/img.png'' ''x'',
                      mkcol_request example_client ''/notes'',
                      put_request example_client ''/notes/img.png'' ''x'']\<rparr>)
   \<and> putFileContents (stubborn_server ''PUT'' 409) example_client ''/notes/img.png'' ''x'' (start ())
       = None
   \<and> moveFile (stubborn_server ''MOVE'' 500) example_client ''/a.png'' ''/notes/img.png'' False (start ())
       = None"
    using retry_once_per_refusal [where srv = "constant_server 201" and w = "start ()"
        and c = example_client and path = "''/notes/img.png''" and data = "''x''"
        and response = "\<lparr>status = 201, resp_text = None, arrayBuffer = []\<rparr>"
        and k = 2 and xs = "[]" and st = 500 and v = "start ()" and overwrite = False
        and oldPath = "''/a.png''" and newPath = "''/notes/img.png''" and dir = "''/notes''"
        and wchk = "start ()" and wput = "start ()" and wmove = "start ()" and e = "Error []"]
    by (simp add: example_directory_pass start_def numeral_2_eq_2)
  have move: "moveFile (refusing_server ''MOVE'' 500) example_client ''/a.png'' ''/notes/img.png'' False
       (start 1)
     = Some (Inr (),
             \<lparr>server_state = 0,
              sent = [head_request example_client ''/notes/img.png'',
                      move_request example_client ''/a.png'' ''/notes/img.png'' False,
                      mkcol_request example_client ''/notes'',
                      head_request example_client ''/notes/img.png'',
                      move_request example_client ''/a.png'' ''/notes/img.png'' False]\<rparr>)"
    using retry_once_per_refusal [where srv = "constant_server 201" and w = "start ()"
        and c = example_client and path = "''/notes/img.png''" and data = "''x''"
        and response = "\<lparr>status = 201, resp_text = None, arrayBuffer = []\<rparr>"
        and k = 1 and xs = "[]" and st = 500 and v = "start ()" and overwrite = False
        and oldPath = "''/a.png''" and newPath = "''/notes/img.png''" and dir = "''/notes''"
        and wchk = "start ()" and wput = "start ()" and wmove = "start ()" and e = "Error []"]
    by (simp add: example_directory_pass start_def)
  from one rest move show ?thesis by simp
qed

text \<open>
  Claim C4 as stated fails: on a server that answers the first two PUT requests with 409,
  \<open>putFileContents\<close> issues the PUT three times.
\<close>

theorem putFileContents_three_puts:
  "map_option (\<lambda>r. (fst r, issued ''PUT'' (snd r)))
     (putFileContents (refusing_server ''PUT'' 409) example_client ''/notes/img.png'' ''x'' (start 2))
   = Some (Inr JsUndefined, 3)"
  by code_simp

section \<open>Loading an image twice, and the teardown\<close>

lemma elements_set_src [simp]:
  "elements (set_src el v pg) = (elements pg)(el := (elements pg el)\<lparr>src := v\<rparr>)"
  by (simp add: set_src_def)

lemma elements_setAttribute [simp]:
  "elements (setAttribute el k v pg)
     = (elements pg)(el := (elements pg el)\<lparr>attributes := AList.update k v (attributes (elements pg el))\<rparr>)"
  by (simp add: setAttribute_def)

lemma set_src_fields [simp]:
  "network (set_src el v pg) = network pg" "blobs (set_src el v pg) = blobs pg"
  "images (set_src el v pg) = images pg" "objectUrls (set_src el v pg) = objectUrls pg"
  "revokedUrls (set_src el v pg) = revokedUrls pg" "theme_dark (set_src el v pg) = theme_dark pg"
  by (simp_all add: set_src_def)

lemma setAttribute_fields [simp]:
  "network (setAttribute el k v pg) = network pg" "blobs (setAttribute el k v pg) = blobs pg"
  "images (setAttribute el k v pg) = images pg" "objectUrls (setAttribute el k v pg) = objectUrls pg"
  "revokedUrls (setAttribute el k v pg) = revokedUrls pg"
  by (simp_all add: setAttribute_def)

text \<open>A load that finds the URL in the cache sends nothing and leaves the cache as it is.\<close>

lemma loader_loadImage_hit:
  assumes "shouldLoadImage pl el pg" "map_of (blobs pg) (src (elements pg el)) = Some blobUrl"
  shows "loader_loadImage pl el cache pg
           = (Inr (), setAttribute el ''loaded'' ''true'' (set_src el blobUrl pg))"
  using assms by (simp add: loader_loadImage_def)

text \<open>A load that does not find it fetches the image once and, with \<open>cache\<close>, stores the handle.\<close>

lemma loader_loadImage_miss:
  assumes should: "shouldLoadImage pl el pg"
    and miss: "map_of (blobs pg) (src (elements pg el)) = None"
    and pw: "atob (js_String (password (plugin_settings pl))) = Inr passwordDecoded"
    and resp: "fst (server pl (server_state (network pg))
                      (fetch_request pl (src (elements pg el)) passwordDecoded)) = Inr resp"
    and ok: "status resp < 400"
  shows "\<exists>pg'. loader_loadImage pl el True pg = (Inr (), pg')
          \<and> sent (network pg') = sent (network pg)
                @ [fetch_request pl (src (elements pg el)) passwordDecoded]
          \<and> blobs pg' = AList.update (src (elements pg el))
                          (objectUrlName pl (length (objectUrls pg))) (blobs pg)
          \<and> objectUrls pg' = objectUrls pg
                @ [(objectUrlName pl (length (objectUrls pg)), arrayBuffer resp)]
          \<and> revokedUrls pg' = revokedUrls pg
          \<and> images pg' = images pg
          \<and> elements pg' = (elements pg)(el := (elements pg el)
                \<lparr>src := objectUrlName pl (length (objectUrls pg)),
                 attributes := AList.update ''loaded'' ''true'' (attributes (elements pg el))\<rparr>)"
  using assms
  by (simp add: loader_loadImage_def fetch_request_def requestUrl_def createObjectURL_def Let_def
      fun_eq_iff)

lemma extension_loadImage_miss:
  assumes fresh: "el \<notin> set (images pg)"
    and should: "shouldLoadImage pl el pg"
    and miss: "map_of (blobs pg) (src (elements pg el)) = None"
    and pw: "atob (js_String (password (plugin_settings pl))) = Inr passwordDecoded"
    and resp: "fst (server pl (server_state (network pg))
                      (fetch_request pl (src (elements pg el)) passwordDecoded)) = Inr resp"
    and ok: "status resp < 400"
  shows "\<exists>pg'. extension_loadImage pl el pg = (Inr (), pg')
          \<and> sent (network pg') = sent (network pg)
                @ [fetch_request pl (src (elements pg el)) passwordDecoded]
          \<and> blobs pg' = AList.update (src (elements pg el))
                          (objectUrlName pl (length (objectUrls pg))) (blobs pg)
          \<and> objectUrls pg' = objectUrls pg
                @ [(objectUrlName pl (length (objectUrls pg)), arrayBuffer resp)]
          \<and> revokedUrls pg' = revokedUrls pg
          \<and> images pg' = images pg @ [el]
          \<and> elements pg' = (elements pg)(el := (elements pg el)
                \<lparr>src := objectUrlName pl (length (objectUrls pg)),
                 attributes := AList.update ''loaded'' ''true'' (attributes (elements pg el))\<rparr>)"
proof -
  from loader_loadImage_miss [OF should miss pw resp ok]
  obtain pg' where pg': "loader_loadImage pl el True pg = (Inr (), pg')"
    "sent (network pg') = sent (network pg) @ [fetch_request pl (src (elements pg el)) passwordDecoded]"
    "blobs pg' = AList.update (src (elements pg el)) (objectUrlName pl (length (objectUrls pg))) (blobs pg)"
    "objectUrls pg' = objectUrls pg @ [(objectUrlName pl (length (objectUrls pg)), arrayBuffer resp)]"
    "revokedUrls pg' = revokedUrls pg"
    "images pg' = images pg"
    "elements pg' = (elements pg)(el := (elements pg el)
                \<lparr>src := objectUrlName pl (length (objectUrls pg)),
                 attributes := AList.update ''loaded'' ''true'' (attributes (elements pg el))\<rparr>)"
    by blast
  have "extension_loadImage pl el pg = (Inr (), pg'\<lparr>images := images pg @ [el]\<rparr>)"
    using fresh pg'(1) pg'(6) by (simp add: extension_loadImage_def)
  with pg' show ?thesis by simp
qed

lemma extension_loadImage_hit:
  assumes fresh: "el \<notin> set (images pg)"
    and should: "shouldLoadImage pl el pg"
    and hit: "map_of (blobs pg) (src (elements pg el)) = Some blobUrl"
  shows "\<exists>pg'. extension_loadImage pl el pg = (Inr (), pg')
          \<and> network pg' = network pg \<and> blobs pg' = blobs pg
          \<and> objectUrls pg' = objectUrls pg \<and> revokedUrls pg' = revokedUrls pg
          \<and> images pg' = images pg @ [el]
          \<and> elements pg' = (elements pg)(el := (elements pg el)
                \<lparr>src := blobUrl,
                 attributes := AList.update ''loaded'' ''true'' (attributes (elements pg el))\<rparr>)"
  using fresh loader_loadImage_hit [OF should hit, of True]
  by (simp add: extension_loadImage_def fun_eq_iff)

lemma count_update_absent:
  "map_of al k = None \<Longrightarrow> length (filter (\<lambda>kv. fst kv = k) (AList.update k v al)) = 1"
  by (induction al) (auto split: if_splits)

text \<open>
  Claim C6. Two image elements that show the same remote URL are loaded one after the other
  through the extension; the URL passes \<open>shouldLoadImage\<close>, is not in the cache yet, the
  password decodes and the fetch is answered with a status below 400. Then both loads succeed,
  exactly one request is sent (the fetch of the first load), one object URL is made, the second
  load assigns the cached handle, both elements show that handle, and the cache holds exactly
  one entry for the URL after each load; a cache with one entry per key keeps one entry per key.
  Loading the first element once more, now that it is tracked, does nothing.
\<close>

theorem same_url_loaded_twice:
  assumes different: "el1 \<noteq> el2"
    and untracked: "el1 \<notin> set (images pg)" "el2 \<notin> set (images pg)"
    and same: "src (elements pg el1) = u" "src (elements pg el2) = u"
    and should: "shouldLoadImage pl el1 pg" "shouldLoadImage pl el2 pg"
    and miss: "map_of (blobs pg) u = None"
    and pw: "atob (js_String (password (plugin_settings pl))) = Inr passwordDecoded"
    and resp: "fst (server pl (server_state (network pg)) (fetch_request pl u passwordDecoded))
                 = Inr resp"
    and ok: "status resp < 400"
  shows "\<exists>pg1 pg2.
           extension_loadImage pl el1 pg = (Inr (), pg1)
         \<and> extension_loadImage pl el2 pg1 = (Inr (), pg2)
         \<and> extension_loadImage pl el1 pg1 = (Inr (), pg1)
         \<and> sent (network pg2) = sent (network pg) @ [fetch_request pl u passwordDecoded]
         \<and> objectUrls pg2 = objectUrls pg
               @ [(objectUrlName pl (length (objectUrls pg)), arrayBuffer resp)]
         \<and> src (elements pg2 el1) = objectUrlName pl (length (objectUrls pg))
         \<and> src (elements pg2 el2) = objectUrlName pl (length (objectUrls pg))
         \<and> map_of (blobs pg2) u = Some (objectUrlName pl (length (objectUrls pg)))
         \<and> length (filter (\<lambda>kv. fst kv = u) (blobs pg1)) = 1
         \<and> length (filter (\<lambda>kv. fst kv = u) (blobs pg2)) = 1
         \<and> (distinct (map fst (blobs pg))
              \<longrightarrow> distinct (map fst (blobs pg1)) \<and> distinct (map fst (blobs pg2)))"
proof -
  let ?b = "objectUrlName pl (length (objectUrls pg))"
  have miss1: "map_of (blobs pg) (src (elements pg el1)) = None"
    using miss same by simp
  have resp1: "fst (server pl (server_state (network pg))
                      (fetch_request pl (src (elements pg el1)) passwordDecoded)) = Inr resp"
    using resp same by simp
  from extension_loadImage_miss [OF untracked(1) should(1) miss1 pw resp1 ok]
  obtain pg1 where pg1: "extension_loadImage pl el1 pg = (Inr (), pg1)"
    "sent (network pg1) = sent (network pg) @ [fetch_request pl u passwordDecoded]"
    "blobs pg1 = AList.update u ?b (blobs pg)"
    "objectUrls pg1 = objectUrls pg @ [(?b, arrayBuffer resp)]"
    "revokedUrls pg1 = revokedUrls pg"
    "images pg1 = images pg @ [el1]"
    "elements pg1 = (elements pg)(el1 := (elements pg el1)
                \<lparr>src := ?b, attributes := AList.update ''loaded'' ''true'' (attributes (elements pg el1))\<rparr>)"
    using same by auto
  have el2: "elements pg1 el2 = elements pg el2"
    using different pg1(7) by simp
  have fresh2: "el2 \<notin> set (images pg1)"
    using different untracked(2) pg1(6) by simp
  have should2: "shouldLoadImage pl el2 pg1"
    using should(2) el2 by (simp add: shouldLoadImage_def getAttribute_def)
  have hit2: "map_of (blobs pg1) (src (elements pg1 el2)) = Some ?b"
    using el2 same pg1(3) by (simp add: update_conv')
  from extension_loadImage_hit [OF fresh2 should2 hit2]
  obtain pg2 where pg2: "extension_loadImage pl el2 pg1 = (Inr (), pg2)"
    "network pg2 = network pg1" "blobs pg2 = blobs pg1"
    "objectUrls pg2 = objectUrls pg1" "revokedUrls pg2 = revokedUrls pg1"
    "images pg2 = images pg1 @ [el2]"
    "elements pg2 = (elements pg1)(el2 := (elements pg1 el2)
                \<lparr>src := ?b, attributes := AList.update ''loaded'' ''true'' (attributes (elements pg1 el2))\<rparr>)"
    by blast
  have one: "length (filter (\<lambda>kv. fst kv = u) (blobs pg1)) = 1"
    using miss pg1(3) by (simp add: count_update_absent)
  have d: "distinct (map fst (blobs pg)) \<longrightarrow> distinct (map fst (blobs pg1))"
    using pg1(3) by (simp add: distinct_update)
  have s1: "src (elements pg2 el1) = ?b"
    using different pg2(7) pg1(7) by simp
  have s2: "src (elements pg2 el2) = ?b"
    using pg2(7) by simp
  have m: "map_of (blobs pg2) u = Some ?b"
    using pg2(3) pg1(3) by (simp add: update_conv')
  have again: "extension_loadImage pl el1 pg1 = (Inr (), pg1)"
    using pg1(6) by (simp add: extension_loadImage_def)
  show ?thesis
    using pg1(1) pg2(1) again pg1(2) pg2(2) pg1(4) pg2(4) s1 s2 m one d pg2(3) by simp
qed

lemma atob_example: "atob (js_String (Some ''cA=='')) = Inr ''p''"
  by code_simp

lemma example_plugin_sel [simp]:
  "plugin_settings example_plugin = example_settings"
  "server example_plugin = constant_server 200"
  "objectUrlName example_plugin n = ''blob:app://obsidian.md/'' @ show_nat n"
  by (simp_all add: example_plugin_def)

lemma example_page_sel [simp]:
  "images example_page = []" "blobs example_page = []" "objectUrls example_page = []"
  "network example_page = start ()"
  "elements example_page el = \<lparr>src = ''https://dav.example.com/remote/notes/img.png'',
                         attributes = [], onload_revokes = False\<rparr>"
  by (simp_all add: example_page_def)

lemma example_should: "shouldLoadImage example_plugin el example_page"
  by (simp add: shouldLoadImage_def getAttribute_def example_plugin_def startsWith_def)

lemma show_nat_0: "show_nat 0 = ''0''"
  by code_simp

text \<open>
  The example page: the elements 0 and 1 both show \<open>/notes/img.png\<close> of the server.
\<close>

theorem same_url_loaded_twice_witness:
  "\<exists>pg1 pg2.
      extension_loadImage example_plugin 0 example_page = (Inr (), pg1)
    \<and> extension_loadImage example_plugin 1 pg1 = (Inr (), pg2)
    \<and> sent (network pg2)
        = [fetch_request example_plugin ''https://dav.example.com/remote/notes/img.png'' ''p'']
    \<and> src (elements pg2 0) = ''blob:app://obsidian.md/0''
    \<and> src (elements pg2 1) = ''blob:app://obsidian.md/0''
    \<and> map_of (blobs pg2) ''https://dav.example.com/remote/notes/img.png''
        = Some ''blob:app://obsidian.md/0''
    \<and> length (filter (\<lambda>kv. fst kv = ''https://dav.example.com/remote/notes/img.png'') (blobs pg2)) = 1"
proof -
  have pw: "atob (js_String (password (plugin_settings example_plugin))) = Inr ''p''"
    using atob_example by (simp add: example_settings_def)
  have resp: "fst (server example_plugin (server_state (network example_page))
                (fetch_request example_plugin ''https://dav.example.com/remote/notes/img.png'' ''p''))
              = Inr \<lparr>status = 200, resp_text = None, arrayBuffer = []\<rparr>"
    by (simp add: constant_server_def answer_def)
  from same_url_loaded_twice [of 0 1 example_page "''https://dav.example.com/remote/notes/img.png''"
      example_plugin "''p''" "\<lparr>status = 200, resp_text = None, arrayBuffer = []\<rparr>",
      OF _ _ _ _ _ example_should example_should _ pw resp]
  show ?thesis
    by (simp add: show_nat_0 start_def) blast
qed

text \<open>
  Claim C7 on the code. The element 0 of the example page is loaded through the extension: it is
  tracked, the cache maps the image's URL to the object URL, and \<open>el.src\<close> is now the object
  URL. At teardown \<open>revokeImage\<close> looks \<open>el.src\<close> up in the cache, whose keys are the original
  URLs, and finds nothing: the tracking set is emptied, but the cache entry stays and no object
  URL is revoked.
\<close>

theorem destroy_keeps_blob:
  "(let pg1 = snd (extension_loadImage example_plugin 0 example_page);
        pg2 = extension_destroy pg1
    in (images pg1, blobs pg1, src (elements pg1 0), images pg2, blobs pg2, revokedUrls pg2))
   = ([0],
      [(''https://dav.example.com/remote/notes/img.png'', ''blob:app://obsidian.md/0'')],
      ''blob:app://obsidian.md/0'',
      [],
      [(''https://dav.example.com/remote/notes/img.png'', ''blob:app://obsidian.md/0'')],
      [])"
  by code_simp

section \<open>From a path to its URL and back\<close>

lemma encodeURI_unchanged:
  "list_all uriUnescapedOrReserved s \<Longrightarrow> encodeURI s = s"
  by (induction s) (simp_all add: encodeURI_def encodeWith_def)

lemma js_replace_empty_prefix: "js_replace_empty p (p @ s) = s"
proof (cases "p @ s")
  case Nil
  then show ?thesis by simp
next
  case (Cons a list)
  have "prefix p (p @ s)" by simp
  moreover have "drop (length p) (p @ s) = s" by simp
  ultimately show ?thesis unfolding Cons by simp
qed

text \<open>
  Where nothing needs escaping the two functions are inverse: when \<open>encodeURI\<close> leaves the base
  URL, the path and the query string as they are, and the query string first occurs in the URL
  where it was appended.
\<close>

lemma path_codec_unescaped:
  assumes tok: "(if length (js_String (token st)) > 0
                 then (case atob (js_String (token st)) of
                         Inl e \<Rightarrow> Inl e | Inr tok' \<Rightarrow> Inr (''?token='' @ tok'))
                 else Inr []) = Inr queryStr"
    and safe: "list_all uriUnescapedOrReserved (url st @ path @ queryStr)"
    and last: "js_replace_empty queryStr (path @ queryStr) = path"
  shows "getUrl st path = Inr (url st @ path @ queryStr)
       \<and> getPath st (url st @ path @ queryStr) = Inr path"
  using tok last encodeURI_unchanged [OF safe]
  by (simp add: getUrl_def getPath_def Let_def js_replace_empty_prefix)

lemma path_codec_unescaped_example:
  "getUrl (example_settings\<lparr>token := Some ''YWJj''\<rparr>) ''/notes/img.png''
     = Inr ''https://dav.example.com/remote/notes/img.png?token=abc''
   \<and> getPath (example_settings\<lparr>token := Some ''YWJj''\<rparr>)
        ''https://dav.example.com/remote/notes/img.png?token=abc''
     = Inr ''/notes/img.png''"
  by code_simp

text \<open>
  What the missing decoding does to a file with a space in its path: the upload sends the PUT to
  \<open>/my%20notes/img.png\<close>, and deleting the file by the URL that \<open>getUrl\<close> gave for it sends
  the DELETE to \<open>/my%2520notes/img.png\<close>, another resource.
\<close>

lemma delete_after_upload_space:
  "map_option (\<lambda>r. map req_url (sent (snd r)))
     (putFileContents (constant_server 201) example_client ''/my notes/img.png'' ''x'' (start ()))
     = Some [''https://dav.example.com/remote/my%20notes/img.png'']
   \<and> map req_url (sent (snd (WebDavClient_deleteFile (constant_server 204) example_WebDavClient
            ''https://dav.example.com/remote/my%20notes/img.png'' (start ()))))
     = [''https://dav.example.com/remote/my%2520notes/img.png'']"
  by code_simp

text \<open>
  Claim C1 on the code. With no token configured, \<open>getUrl\<close> turns the space of the path
  \<open>/my notes/img.png\<close> into \<open>%20\<close>; \<open>getPath\<close> strips the base URL and decodes nothing, so it
  returns \<open>/my%20notes/img.png\<close>, not the path.
\<close>

theorem getPath_after_getUrl_space:
  "getUrl example_settings ''/my notes/img.png''
     = Inr ''https://dav.example.com/remote/my%20notes/img.png''
   \<and> getPath example_settings ''https://dav.example.com/remote/my%20notes/img.png''
     = Inr ''/my%20notes/img.png''"
  by code_simp

end
